theory Spec2Isabelle
  imports Complex_Main "HOL-Library.Sublist"
begin

section \<open>Support-ticket analytics platform: the services as functions\<close>

text \<open>
  The theory embeds the services under \<^verbatim>\<open>src/services\<close>: the classifier, the
  sliding-window rate limiter, the distributed lock, the synchroniser, the analytics
  aggregator and the ingestion coordinator. Python dictionaries are maps, the
  collections of the document store are lists of documents in insertion order, an
  exception is a value of type \<open>exn\<close>, and every reading of the clock is a number of
  seconds.
\<close>

subsection \<open>Values, documents and exceptions\<close>

text \<open>
  A \<^verbatim>\<open>datetime\<close>: the seconds shown by the wall clock of its own zone, and the
  offset of that zone from UTC (\<open>None\<close> for a naive value).
\<close>

record datetime =
  wall :: real
  tzinfo :: "real option"

datatype val = VNull | VBool bool | VNum int | VStr string | VTime datetime

type_synonym doc = "string \<rightharpoonup> val"

datatype exn =
    IndexError | KeyError string | TypeError | AttributeError | ValueError | ParserError
  | JSONDecodeError | HTTPStatusError int | ConnectError

text \<open>\<^verbatim>\<open>d.get(k)\<close>: \<^verbatim>\<open>None\<close> for a missing key.\<close>

definition dict_get :: "doc \<Rightarrow> string \<Rightarrow> val" where
  "dict_get d k = (case d k of None \<Rightarrow> VNull | Some v \<Rightarrow> v)"

text \<open>Python's truth value of an object.\<close>

fun truthy :: "val \<Rightarrow> bool" where
  "truthy VNull = False"
| "truthy (VBool b) = b"
| "truthy (VNum n) = (n \<noteq> 0)"
| "truthy (VStr s) = (s \<noteq> [])"
| "truthy (VTime t) = True"

text \<open>\<^verbatim>\<open>datetime.utcnow()\<close> is a naive value.\<close>

definition utc :: "real \<Rightarrow> datetime" where
  "utc t = \<lparr> wall = t, tzinfo = None \<rparr>"

text \<open>
  The store keeps a date in whole milliseconds: a datetime is cut to the millisecond
  when it is written, also as part of a query.
\<close>

definition ms :: "real \<Rightarrow> real" where
  "ms t = of_int \<lfloor>t * 1000\<rfloor> / 1000"

text \<open>
  Query operators of the document store on one field: equality (a query for
  \<^verbatim>\<open>null\<close> also matches a document without the field), \<^verbatim>\<open>$in\<close> and
  \<^verbatim>\<open>$exists\<close>.
\<close>

definition fld_eq :: "doc \<Rightarrow> string \<Rightarrow> val \<Rightarrow> bool" where
  "fld_eq d k v = (case d k of None \<Rightarrow> v = VNull | Some w \<Rightarrow> w = v)"

definition fld_in :: "doc \<Rightarrow> string \<Rightarrow> val list \<Rightarrow> bool" where
  "fld_in d k vs = (case d k of None \<Rightarrow> VNull \<in> set vs | Some w \<Rightarrow> w \<in> set vs)"

definition fld_exists :: "doc \<Rightarrow> string \<Rightarrow> bool" where
  "fld_exists d k = (d k \<noteq> None)"

text \<open>\<^verbatim>\<open>update_one\<close> and \<^verbatim>\<open>delete_one\<close> act on the first document that matches.\<close>

fun update_first :: "('a \<Rightarrow> bool) \<Rightarrow> ('a \<Rightarrow> 'a) \<Rightarrow> 'a list \<Rightarrow> 'a list" where
  "update_first P f [] = []"
| "update_first P f (x # xs) = (if P x then f x # xs else x # update_first P f xs)"

fun delete_first :: "('a \<Rightarrow> bool) \<Rightarrow> 'a list \<Rightarrow> 'a list" where
  "delete_first P [] = []"
| "delete_first P (x # xs) = (if P x then xs else x # delete_first P xs)"

subsection \<open>The collections of the store\<close>

record lock_doc =
  resource_id :: string
  owner_id :: string
  acquired_at :: real
  expires_at :: real

record history_doc =
  h_ticket_id :: val
  h_tenant_id :: string
  h_action :: string
  h_changes :: "(string \<times> val \<times> val) list"
  h_recorded_at :: real

record job_doc =
  j_tenant_id :: string
  j_status :: string
  j_started_at :: real
  j_ended_at :: "real option"
  j_progress :: int
  j_total_pages :: "int option"
  j_processed_pages :: int
  j_job_id :: string

record log_doc =
  l_tenant_id :: string
  l_job_id :: string
  l_status :: string
  l_error :: "exn option"
  l_started_at :: real
  l_ended_at :: real
  l_new_ingested :: nat
  l_updated :: nat
  l_errors :: nat

text \<open>
  The database: one list per collection, in insertion order. The \<^verbatim>\<open>_id\<close> of a job is
  its position in \<open>ingestion_jobs\<close> (jobs are never removed). The dates of the tickets
  and of the locks are kept in whole milliseconds; the job, log and history documents
  carry the clock reading that was written, which none of the functions below reads.
\<close>

record db =
  tickets :: "doc list"
  ticket_history :: "history_doc list"
  ingestion_jobs :: "job_doc list"
  ingestion_logs :: "log_doc list"
  distributed_locks :: "lock_doc list"

subsection \<open>Rate limiter (\<^verbatim>\<open>rate_limiter.py\<close>)\<close>

record rate_limiter =
  requests_per_minute :: int
  window_seconds :: real
  request_times :: "real list"

definition RateLimiter :: "int \<Rightarrow> rate_limiter" where
  "RateLimiter rpm = \<lparr> requests_per_minute = rpm, window_seconds = 60, request_times = [] \<rparr>"

definition get_rate_limiter :: rate_limiter where
  "get_rate_limiter = RateLimiter 60"

text \<open>
  \<^verbatim>\<open>while self.request_times and now - self.request_times[0] > self.window_seconds:
      self.request_times.popleft()\<close>
\<close>

fun evict :: "real \<Rightarrow> real \<Rightarrow> real list \<Rightarrow> real list" where
  "evict now w [] = []"
| "evict now w (t # ts) = (if now - t > w then evict now w ts else t # ts)"

text \<open>
  \<open>acquire\<close> at clock reading \<open>now\<close>. In the else branch \<^verbatim>\<open>self.request_times[0]\<close>
  raises on an empty deque (a limit of zero or less).
\<close>

definition acquire :: "real \<Rightarrow> rate_limiter \<Rightarrow> (exn + real) \<times> rate_limiter" where
  "acquire now rl =
     (let q = evict now (window_seconds rl) (request_times rl) in
      if int (length q) < requests_per_minute rl
      then (Inr 0, rl\<lparr>request_times := q @ [now]\<rparr>)
      else (case q of
              [] \<Rightarrow> (Inl IndexError, rl\<lparr>request_times := q\<rparr>)
            | oldest_request # _ \<Rightarrow>
                (Inr (max 0 (window_seconds rl - (now - oldest_request))),
                 rl\<lparr>request_times := q\<rparr>)))"

subsection \<open>Distributed lock (\<^verbatim>\<open>lock_service.py\<close>)\<close>

definition LOCK_TTL_SECONDS :: real where
  "LOCK_TTL_SECONDS = 60"

text \<open>
  \<open>acquire_lock\<close>: first the conditional update of an expired lock of the resource;
  else the insert, which the unique index on \<open>resource_id\<close> refuses
  (\<^verbatim>\<open>DuplicateKeyError\<close>, answered with \<^verbatim>\<open>False\<close>) when the resource has a lock.
\<close>

definition acquire_lock :: "real \<Rightarrow> string \<Rightarrow> string \<Rightarrow> db \<Rightarrow> bool \<times> db" where
  "acquire_lock now resource owner d =
     (let expires = ms (now + LOCK_TTL_SECONDS);
          expired = (\<lambda>l. resource_id l = resource \<and> expires_at l < ms now) in
      if list_ex expired (distributed_locks d)
      then (True, d\<lparr>distributed_locks :=
              update_first expired
                (\<lambda>l. l\<lparr>owner_id := owner, acquired_at := ms now, expires_at := expires\<rparr>)
                (distributed_locks d)\<rparr>)
      else if list_ex (\<lambda>l. resource_id l = resource) (distributed_locks d)
      then (False, d)
      else (True, d\<lparr>distributed_locks := distributed_locks d @
              [\<lparr> resource_id = resource, owner_id = owner,
                 acquired_at = ms now, expires_at = expires \<rparr>]\<rparr>))"

text \<open>\<open>release_lock\<close>: \<^verbatim>\<open>delete_one\<close>, answered with \<^verbatim>\<open>deleted_count > 0\<close>.\<close>

definition release_lock :: "string \<Rightarrow> string \<Rightarrow> db \<Rightarrow> bool \<times> db" where
  "release_lock resource owner d =
     (let mine = (\<lambda>l. resource_id l = resource \<and> owner_id l = owner) in
      (list_ex mine (distributed_locks d),
       d\<lparr>distributed_locks := delete_first mine (distributed_locks d)\<rparr>))"

text \<open>
  \<open>refresh_lock\<close>: \<^verbatim>\<open>update_one\<close> with \<^verbatim>\<open>$set: {expires_at: now + TTL}\<close>, answered
  with \<^verbatim>\<open>modified_count > 0\<close>. The store counts a matched document as modified only
  when the update changes it: when the stored \<open>expires_at\<close> is not already the new one,
  both in whole milliseconds.
\<close>

definition refresh_lock :: "real \<Rightarrow> string \<Rightarrow> string \<Rightarrow> db \<Rightarrow> bool \<times> db" where
  "refresh_lock now resource owner d =
     (let expires = ms (now + LOCK_TTL_SECONDS);
          mine = (\<lambda>l. resource_id l = resource \<and> owner_id l = owner) in
      (case find mine (distributed_locks d) of
         None \<Rightarrow> False
       | Some l \<Rightarrow> expires_at l \<noteq> expires,
       d\<lparr>distributed_locks :=
           update_first mine (\<lambda>l. l\<lparr>expires_at := expires\<rparr>) (distributed_locks d)\<rparr>))"

subsection \<open>Synchroniser (\<^verbatim>\<open>sync_service.py\<close>)\<close>

record sync_result =
  action :: string
  ticket_id :: val
  changes :: "string list"

definition record_history ::
  "real \<Rightarrow> val \<Rightarrow> string \<Rightarrow> string \<Rightarrow> (string \<times> val \<times> val) list option \<Rightarrow> db \<Rightarrow> db" where
  "record_history now tid tenant act chg d =
     d\<lparr>ticket_history := ticket_history d @
        [\<lparr> h_ticket_id = tid, h_tenant_id = tenant, h_action = act,
           h_changes = (case chg of None \<Rightarrow> [] | Some c \<Rightarrow> c), h_recorded_at = now \<rparr>]\<rparr>"

text \<open>
  Python's \<^verbatim>\<open>==\<close> on the values of a document: a boolean equals the number 1 or 0,
  two aware datetimes are equal when they are the same instant, a naive and an aware
  one are never equal.
\<close>

fun py_eq :: "val \<Rightarrow> val \<Rightarrow> bool" where
  "py_eq (VBool b) (VNum n) = (n = (if b then 1 else 0))"
| "py_eq (VNum n) (VBool b) = (n = (if b then 1 else 0))"
| "py_eq (VTime a) (VTime b) =
     (case (tzinfo a, tzinfo b) of
        (None, None) \<Rightarrow> wall a = wall b
      | (Some oa, Some ob) \<Rightarrow> wall a - oa = wall b - ob
      | _ \<Rightarrow> False)"
| "py_eq v w = (v = w)"

text \<open>
  \<open>compute_changes\<close>: the changed fields in the order of the list, each with its old
  and new value (the fields compared are distinct).
\<close>

fun compute_changes :: "doc \<Rightarrow> doc \<Rightarrow> string list \<Rightarrow> (string \<times> val \<times> val) list" where
  "compute_changes old_doc new_doc [] = []"
| "compute_changes old_doc new_doc (field # rest) =
     (let old_value = dict_get old_doc field; new_value = dict_get new_doc field in
      if old_value = VNull \<and> new_value = VNull then compute_changes old_doc new_doc rest
      else if \<not> py_eq old_value new_value
        then (field, old_value, new_value) # compute_changes old_doc new_doc rest
      else compute_changes old_doc new_doc rest)"

text \<open>
  A timestamp of a ticket as a \<^verbatim>\<open>datetime\<close>: a string goes through
  \<^verbatim>\<open>dateutil.parser.parse\<close> (the parameter \<open>parse\<close>, \<open>None\<close> where it raises); a value
  that is neither a string nor a datetime has no \<^verbatim>\<open>tzinfo\<close>.
\<close>

definition to_datetime :: "(string \<Rightarrow> datetime option) \<Rightarrow> val \<Rightarrow> exn + datetime" where
  "to_datetime parse v =
     (case v of
        VStr s \<Rightarrow> (case parse s of None \<Rightarrow> Inl ParserError | Some t \<Rightarrow> Inr t)
      | VTime t \<Rightarrow> Inr t
      | _ \<Rightarrow> Inl AttributeError)"

text \<open>
  Both naive or both aware: a naive value takes the zone of the other
  (\<^verbatim>\<open>replace(tzinfo=...)\<close> keeps the wall clock).
\<close>

definition coerce_awareness :: "datetime \<Rightarrow> datetime \<Rightarrow> datetime \<times> datetime" where
  "coerce_awareness ext ex =
     (if tzinfo ext \<noteq> None \<and> tzinfo ex = None then (ext, ex\<lparr>tzinfo := tzinfo ext\<rparr>)
      else if tzinfo ext = None \<and> tzinfo ex \<noteq> None then (ext\<lparr>tzinfo := tzinfo ex\<rparr>, ex)
      else (ext, ex))"

text \<open>\<^verbatim>\<open>a <= b\<close> on datetimes: a naive and an aware value do not compare.\<close>

definition dt_le :: "datetime \<Rightarrow> datetime \<Rightarrow> exn + bool" where
  "dt_le a b =
     (case (tzinfo a, tzinfo b) of
        (None, None) \<Rightarrow> Inr (wall a \<le> wall b)
      | (Some oa, Some ob) \<Rightarrow> Inr (wall a - oa \<le> wall b - ob)
      | _ \<Rightarrow> Inl TypeError)"

text \<open>The test "the external version is not newer" of \<open>sync_ticket\<close>.\<close>

definition not_newer :: "(string \<Rightarrow> datetime option) \<Rightarrow> val \<Rightarrow> val \<Rightarrow> exn + bool" where
  "not_newer parse external_updated_at existing_updated_at =
     (if truthy external_updated_at \<and> truthy existing_updated_at then
        (case to_datetime parse external_updated_at of
           Inl e \<Rightarrow> Inl e
         | Inr ext \<Rightarrow>
             (case to_datetime parse existing_updated_at of
                Inl e \<Rightarrow> Inl e
              | Inr ex \<Rightarrow> (case coerce_awareness ext ex of (a, b) \<Rightarrow> dt_le a b)))
      else Inr False)"

definition same_ticket :: "string \<Rightarrow> val \<Rightarrow> doc \<Rightarrow> bool" where
  "same_ticket tenant external_id d =
     (fld_eq d ''tenant_id'' (VStr tenant) \<and> fld_eq d ''external_id'' external_id)"

definition sync_ticket ::
  "(string \<Rightarrow> datetime option) \<Rightarrow> real \<Rightarrow> doc \<Rightarrow> string \<Rightarrow> db \<Rightarrow> exn + (sync_result \<times> db)" where
  "sync_ticket parse now external_ticket tenant d =
     (let external_id = dict_get external_ticket ''id'';
          external_updated_at = dict_get external_ticket ''updated_at'' in
      case find (same_ticket tenant external_id) (tickets d) of
        None \<Rightarrow> Inr (\<lparr> action = ''created'', ticket_id = external_id, changes = [] \<rparr>, d)
      | Some existing \<Rightarrow>
          (case not_newer parse external_updated_at (dict_get existing ''updated_at'') of
             Inl e \<Rightarrow> Inl e
           | Inr True \<Rightarrow>
               Inr (\<lparr> action = ''unchanged'', ticket_id = external_id, changes = [] \<rparr>, d)
           | Inr False \<Rightarrow>
               (let changes_dict =
                      compute_changes existing external_ticket
                        [''subject'', ''message'', ''status''] in
                if changes_dict \<noteq> []
                then Inr (\<lparr> action = ''updated'', ticket_id = external_id,
                            changes = map fst changes_dict \<rparr>,
                          record_history now external_id tenant ''updated''
                            (Some changes_dict) d)
                else Inr (\<lparr> action = ''unchanged'', ticket_id = external_id,
                            changes = [] \<rparr>, d))))"

text \<open>
  \<open>mark_deleted\<close>: \<^verbatim>\<open>update_many\<close> stamps every ticket of the tenant whose id is in the
  list and that has no \<open>deleted_at\<close>; each of them counts as modified. Then one history
  record per element of the list.
\<close>

definition to_delete :: "string \<Rightarrow> val list \<Rightarrow> doc \<Rightarrow> bool" where
  "to_delete tenant external_ids d =
     (fld_eq d ''tenant_id'' (VStr tenant) \<and> fld_in d ''external_id'' external_ids
      \<and> \<not> fld_exists d ''deleted_at'')"

definition mark_deleted :: "real \<Rightarrow> string \<Rightarrow> val list \<Rightarrow> db \<Rightarrow> nat \<times> db" where
  "mark_deleted now tenant external_ids d =
     (if external_ids = [] then (0, d)
      else
        (let d1 = d\<lparr>tickets :=
                    map (\<lambda>t. if to_delete tenant external_ids t
                              then t(''deleted_at'' \<mapsto> VTime (utc (ms now))) else t)
                      (tickets d)\<rparr>;
             d2 = fold (\<lambda>external_id. record_history now external_id tenant ''deleted'' None)
                    external_ids d1
         in (length (filter (to_delete tenant external_ids) (tickets d)), d2)))"

text \<open>
  \<open>detect_deleted_tickets\<close>: the live tickets of the tenant whose id is not in the
  list; \<^verbatim>\<open>ticket["external_id"]\<close> raises on a document without the field.
\<close>

fun external_ids_of :: "doc list \<Rightarrow> exn + val list" where
  "external_ids_of [] = Inr []"
| "external_ids_of (t # ts) =
     (case t ''external_id'' of
        None \<Rightarrow> Inl (KeyError ''external_id'')
      | Some v \<Rightarrow> (case external_ids_of ts of Inl e \<Rightarrow> Inl e | Inr vs \<Rightarrow> Inr (v # vs)))"

definition detect_deleted_tickets :: "string \<Rightarrow> val list \<Rightarrow> db \<Rightarrow> exn + val list" where
  "detect_deleted_tickets tenant external_ids d =
     external_ids_of
       (filter (\<lambda>t. fld_eq t ''tenant_id'' (VStr tenant)
                    \<and> \<not> fld_in t ''external_id'' external_ids
                    \<and> \<not> fld_exists t ''deleted_at'')
          (tickets d))"

subsection \<open>Classifier (\<^verbatim>\<open>classify_service.py\<close>)\<close>

text \<open>
  \<^verbatim>\<open>str.lower()\<close> on the characters of a HOL string: the letters A to Z are mapped
  to a to z, every other byte is kept. The keywords are ASCII.
\<close>

definition lower_char :: "char \<Rightarrow> char" where
  "lower_char c =
     (let n = (of_char c :: nat) in if 65 \<le> n \<and> n \<le> 90 then char_of (n + 32) else c)"

definition lower :: "string \<Rightarrow> string" where
  "lower s = map lower_char s"

text \<open>Python's \<^verbatim>\<open>keyword in text\<close> on strings: the keyword starts at some position.\<close>

fun str_in :: "string \<Rightarrow> string \<Rightarrow> bool" where
  "str_in k [] = (k = [])"
| "str_in k (c # cs) = (prefix k (c # cs) \<or> str_in k cs)"

text \<open>\<^verbatim>\<open>any(keyword in text for keyword in keywords)\<close>\<close>

definition any_in :: "string list \<Rightarrow> string \<Rightarrow> bool" where
  "any_in keywords text = list_ex (\<lambda>keyword. str_in keyword text) keywords"

definition high_urgency_keywords :: "string list" where
  "high_urgency_keywords =
     [''urgent'', ''critical'', ''emergency'', ''asap'', ''immediately'',
      ''lawsuit'', ''legal'', ''lawyer'', ''attorney'', ''court'',
      ''refund'', ''chargeback'', ''fraud'', ''security breach'',
      ''data breach'', ''gdpr'', ''compliance'', ''violation'',
      ''outage'', ''down'', ''not working'', ''broken'', ''crashed'']"

definition medium_urgency_keywords :: "string list" where
  "medium_urgency_keywords =
     [''issue'', ''problem'', ''error'', ''bug'', ''concern'',
      ''complaint'', ''unhappy'', ''dissatisfied'', ''disappointed'']"

definition negative_keywords :: "string list" where
  "negative_keywords =
     [''angry'', ''frustrated'', ''terrible'', ''awful'', ''horrible'',
      ''worst'', ''hate'', ''useless'', ''broken'', ''disappointed'',
      ''unacceptable'', ''poor'', ''bad'', ''annoyed'', ''upset'']"

definition positive_keywords :: "string list" where
  "positive_keywords =
     [''thank'', ''thanks'', ''appreciate'', ''great'', ''excellent'',
      ''good'', ''happy'', ''satisfied'', ''wonderful'', ''love'']"

definition action_required_keywords :: "string list" where
  "action_required_keywords =
     [''refund'', ''cancel'', ''delete'', ''remove'', ''fix'',
      ''help'', ''urgent'', ''asap'', ''immediately'',
      ''lawsuit'', ''legal'', ''gdpr'', ''compliance'',
      ''broken'', ''not working'', ''error'', ''issue'']"

record classification =
  urgency :: string
  sentiment :: string
  requires_action :: bool

definition classify :: "string \<Rightarrow> string \<Rightarrow> classification" where
  "classify message subject =
     (let text = lower (subject @ '' '' @ message) in
      \<lparr> urgency =
          (if any_in high_urgency_keywords text then ''high''
           else if any_in medium_urgency_keywords text then ''medium''
           else ''low''),
        sentiment =
          (if any_in negative_keywords text then ''negative''
           else if any_in positive_keywords text then ''positive''
           else ''neutral''),
        requires_action = any_in action_required_keywords text \<rparr>)"

text \<open>
  What the specification calls a match: the keyword is a substring of the text, with
  no condition on what stands before or after it.
\<close>

definition substring_of :: "string \<Rightarrow> string \<Rightarrow> bool" where
  "substring_of k t = (\<exists>p s. t = p @ k @ s)"

definition matches_any :: "string list \<Rightarrow> string \<Rightarrow> bool" where
  "matches_any ks t = (\<exists>k. k \<in> set ks \<and> substring_of k t)"

subsection \<open>Analytics aggregator (\<^verbatim>\<open>analytics_service.py\<close>)\<close>

text \<open>
  The store keeps a datetime as an instant: an aware value is converted to UTC, a naive
  one is taken as UTC.
\<close>

definition instant :: "datetime \<Rightarrow> real" where
  "instant t = wall t - (case tzinfo t of None \<Rightarrow> 0 | Some off \<Rightarrow> off)"
























subsection \<open>Waiting for the rate limiter\<close>

text \<open>
  \<open>wait_and_acquire\<close> from clock reading \<open>now\<close>: \<^verbatim>\<open>asyncio.sleep(wait_time)\<close> moves the
  clock on by exactly \<open>wait_time\<close>, then the method calls itself. The result is the
  exception of \<open>acquire\<close>, if any, the clock reading at the end and the limiter.
\<close>

lemma acquire_after_wait:
  assumes "acquire now rl = (Inr w, rl')" and "0 < w"
  shows "fst (acquire (now + w) rl') = Inr 0"
proof -
  define q where "q = evict now (window_seconds rl) (request_times rl)"
  from assms have full: "\<not> int (length q) < requests_per_minute rl"
    by (auto simp: acquire_def Let_def q_def split: if_splits)
  with assms obtain t q' where q: "q = t # q'"
    by (cases q) (auto simp: acquire_def Let_def q_def)
  from assms full q have w: "w = max 0 (window_seconds rl - (now - t))"
    and rl': "rl' = rl\<lparr>request_times := q\<rparr>"
    by (auto simp: acquire_def Let_def q_def)
  from w assms(2) have w': "w = window_seconds rl - (now - t)" by (simp add: max_def split: if_splits)
  then have e: "evict (now + w) (window_seconds rl) q = q" by (simp add: q)
  show ?thesis
    using full w' by (simp add: acquire_def Let_def rl' e) (simp add: q)
qed

function wait_and_acquire :: "real \<Rightarrow> rate_limiter \<Rightarrow> exn option \<times> real \<times> rate_limiter" where
  "wait_and_acquire now rl =
     (case acquire now rl of
        (Inl e, rl') \<Rightarrow> (Some e, now, rl')
      | (Inr wait_time, rl') \<Rightarrow>
          if 0 < wait_time then wait_and_acquire (now + wait_time) rl'
          else (None, now, rl'))"
  by pat_completeness auto
termination
proof (relation "measure (\<lambda>(now, rl). if (\<exists>w. 0 < w \<and> fst (acquire now rl) = Inr w) then 1 else 0)")
  show "wf (measure (\<lambda>(now, rl). if (\<exists>w. 0 < w \<and> fst (acquire now rl) = Inr w) then 1 else 0))"
    by simp
next
  fix now :: real and rl :: rate_limiter and x rl' wait_time
  assume a: "(x, rl') = acquire now rl" "x = Inr wait_time" "0 < wait_time"
  then have "acquire now rl = (Inr wait_time, rl')" by simp
  from acquire_after_wait[OF this a(3)]
  have "\<not> (\<exists>w. 0 < w \<and> fst (acquire (now + wait_time) rl') = Inr w)" by simp
  moreover from a have "\<exists>w. 0 < w \<and> fst (acquire now rl) = Inr w"
    by (metis fst_conv)
  ultimately show "((now + wait_time, rl'), (now, rl)) \<in>
      measure (\<lambda>(now, rl). if (\<exists>w. 0 < w \<and> fst (acquire now rl) = Inr w) then 1 else 0)"
    by simp
qed

declare wait_and_acquire.simps [simp del]

subsection \<open>Ingestion coordinator (\<^verbatim>\<open>ingest_service.py\<close>): fetching a page\<close>

text \<open>
  What the external API answers to one \<^verbatim>\<open>client.get\<close>: a response with its status
  code, its \<^verbatim>\<open>Retry-After\<close> header (missing, an integer, or text that \<^verbatim>\<open>int()\<close>
  refuses) and its body, or a transport error. A body is not JSON, or it decodes to a
  falsy value (\<open>Json None\<close>) or to a page, whose fields are read with the defaults of
  the code (\<^verbatim>\<open>tickets\<close>: the empty list, \<^verbatim>\<open>total_pages\<close>: 1).
\<close>

datatype retry_after = NoHeader | HeaderInt int | HeaderBad

record page_data =
  p_tickets :: "doc list"
  p_total_pages :: int

datatype body = NotJson | Json "page_data option"

datatype http_result = Response int retry_after body | NetworkError

text \<open>\<^verbatim>\<open>response.raise_for_status()\<close> raises for a status outside 200..299.\<close>

definition raise_for_status :: "int \<Rightarrow> bool" where
  "raise_for_status status = (\<not> (200 \<le> status \<and> status \<le> 299))"

text \<open>
  The body of the \<^verbatim>\<open>try\<close> on one answer: it returns the decoded body, or sleeps for
  the \<^verbatim>\<open>Retry-After\<close> seconds and continues, or raises.
\<close>

datatype try_outcome = Return "page_data option" | RateLimited int | Failed exn

definition try_request :: "http_result \<Rightarrow> try_outcome" where
  "try_request r =
     (case r of
        NetworkError \<Rightarrow> Failed ConnectError
      | Response status hdr b \<Rightarrow>
          if status = 429 then
            (case hdr of
               NoHeader \<Rightarrow> RateLimited 60
             | HeaderInt n \<Rightarrow> RateLimited n
             | HeaderBad \<Rightarrow> Failed ValueError)
          else if raise_for_status status then Failed (HTTPStatusError status)
          else (case b of NotJson \<Rightarrow> Failed JSONDecodeError | Json v \<Rightarrow> Return v))"

text \<open>
  The result of a fetch: what it returns or raises, the sleeps it made (seconds, in
  order) and the number of requests it sent.
\<close>

type_synonym fetch_result = "(exn + page_data option) \<times> int list \<times> nat"

definition then_on :: "int list \<Rightarrow> fetch_result \<Rightarrow> fetch_result" where
  "then_on slept r = (case r of (v, sleeps, n) \<Rightarrow> (v, slept @ sleeps, Suc n))"

text \<open>
  \<^verbatim>\<open>for attempt in range(max_retries)\<close>, on the attempts still to run; \<open>get attempt\<close>
  is the answer to the request of that attempt. After the loop the function returns
  \<^verbatim>\<open>None\<close>.
\<close>

fun fetch_loop :: "(nat \<Rightarrow> http_result) \<Rightarrow> nat \<Rightarrow> nat list \<Rightarrow> fetch_result" where
  "fetch_loop get max_retries [] = (Inr None, [], 0)"
| "fetch_loop get max_retries (attempt # rest) =
     (case try_request (get attempt) of
        Return v \<Rightarrow> (Inr v, [], 1)
      | RateLimited retry_after \<Rightarrow> then_on [retry_after] (fetch_loop get max_retries rest)
      | Failed e \<Rightarrow>
          if e = HTTPStatusError 429 then then_on [] (fetch_loop get max_retries rest)
          else if int attempt = int max_retries - 1 then (Inl e, [], 1)
          else then_on (if int attempt < int max_retries - 1 then [2 ^ attempt] else [])
                 (fetch_loop get max_retries rest))"

definition fetch_page_with_retry :: "(nat \<Rightarrow> http_result) \<Rightarrow> nat \<Rightarrow> fetch_result" where
  "fetch_page_with_retry get max_retries = fetch_loop get max_retries [0..<max_retries]"

text \<open>
  The sleeps that follow an attempt which does not return: the \<^verbatim>\<open>Retry-After\<close>
  seconds after a 429, the backoff \<open>2 ^ attempt\<close> after an error on the first or the
  second attempt.
\<close>

definition pause :: "nat \<Rightarrow> try_outcome \<Rightarrow> int list" where
  "pause attempt outcome =
     (case outcome of
        Return v \<Rightarrow> []
      | RateLimited retry_after \<Rightarrow> [retry_after]
      | Failed e \<Rightarrow> (if attempt < 2 then [2 ^ attempt] else []))"

subsection \<open>Ingestion coordinator: the state of a run\<close>

record notification =
  n_ticket_id :: val
  n_tenant_id :: string
  n_urgency :: string
  n_reason :: string

text \<open>
  The world of a run: the store, the clock, the process-wide limiter, the cancellation
  flags of the process, the notification tasks created so far and the number of
  requests sent to the external API so far.
\<close>

record world =
  store :: db
  clock :: real
  limiter :: rate_limiter
  cancellation_flags :: "string \<rightharpoonup> bool"
  notifications :: "notification list"
  requests :: nat

text \<open>
  What a run does not decide: the answer of the external API to the k-th request (for a
  tenant and a page), \<^verbatim>\<open>dateutil.parser.parse\<close>, the \<^verbatim>\<open>uuid4\<close> drawn for the job,
  after how many requests a concurrent \<open>cancel_job\<close> sets the flag of the job (never,
  for \<open>None\<close>), and the progress \<^verbatim>\<open>int((page / total_pages) * 100)\<close>, which Python
  computes on doubles.
\<close>

record env =
  api :: "nat \<Rightarrow> string \<Rightarrow> int \<Rightarrow> http_result"
  date_parser :: "string \<Rightarrow> datetime option"
  uuid4 :: string
  cancel_after :: "nat option"
  progress_of :: "int \<Rightarrow> int \<Rightarrow> int"

record counters =
  new_ingested :: nat
  updated :: nat
  errors :: nat
  all_external_ids :: "val list"

datatype job_ref = DbId nat | JobId string

record ingest_result =
  r_status :: string
  r_job_id :: job_ref
  r_new_ingested :: nat
  r_updated :: nat
  r_errors :: nat

definition concurrent_cancel :: "env \<Rightarrow> string \<Rightarrow> world \<Rightarrow> world" where
  "concurrent_cancel env job_id w =
     (case cancel_after env of
        None \<Rightarrow> w
      | Some n \<Rightarrow>
          if n \<le> requests w
          then w\<lparr>cancellation_flags := (cancellation_flags w)(job_id \<mapsto> True)\<rparr>
          else w)"

text \<open>\<^verbatim>\<open>self._cancellation_flags.get(job_id, False)\<close>\<close>

definition cancelled :: "string \<Rightarrow> world \<Rightarrow> bool" where
  "cancelled job_id w = (case cancellation_flags w job_id of None \<Rightarrow> False | Some b \<Rightarrow> b)"

subsection \<open>Ingestion coordinator: one ticket\<close>

text \<open>\<^verbatim>\<open>d.get(k, default)\<close>\<close>

definition get_or :: "doc \<Rightarrow> string \<Rightarrow> val \<Rightarrow> val" where
  "get_or d k dflt = (case d k of None \<Rightarrow> dflt | Some v \<Rightarrow> v)"

text \<open>The concatenation \<^verbatim>\<open>subject + " " + message\<close> raises unless both are strings.\<close>

definition classify_ticket :: "doc \<Rightarrow> exn + classification" where
  "classify_ticket ticket_data =
     (case (get_or ticket_data ''message'' (VStr []), get_or ticket_data ''subject'' (VStr [])) of
        (VStr message, VStr subject) \<Rightarrow> Inr (classify message subject)
      | _ \<Rightarrow> Inl TypeError)"

definition parse_if_str :: "(string \<Rightarrow> datetime option) \<Rightarrow> val \<Rightarrow> exn + val" where
  "parse_if_str parse v =
     (case v of
        VStr s \<Rightarrow> (case parse s of None \<Rightarrow> Inl ParserError | Some t \<Rightarrow> Inr (VTime t))
      | _ \<Rightarrow> Inr v)"

definition ticket_doc ::
  "string \<Rightarrow> doc \<Rightarrow> val \<Rightarrow> val \<Rightarrow> classification \<Rightarrow> (string \<times> val) list" where
  "ticket_doc tenant ticket_data created_at updated_at c =
     [(''external_id'', dict_get ticket_data ''id''),
      (''tenant_id'', VStr tenant),
      (''source'', get_or ticket_data ''source'' (VStr [])),
      (''customer_id'', get_or ticket_data ''customer_id'' (VStr [])),
      (''subject'', get_or ticket_data ''subject'' (VStr [])),
      (''message'', get_or ticket_data ''message'' (VStr [])),
      (''created_at'', created_at),
      (''updated_at'', updated_at),
      (''status'', get_or ticket_data ''status'' (VStr [])),
      (''urgency'', VStr (urgency c)),
      (''sentiment'', VStr (sentiment c)),
      (''requires_action'', VBool (requires_action c))]"

text \<open>
  Classification and the parsing of the two dates, up to the ticket document; any
  exception here is caught per ticket.
\<close>

definition prepare_ticket ::
  "(string \<Rightarrow> datetime option) \<Rightarrow> string \<Rightarrow> doc \<Rightarrow> exn + ((string \<times> val) list \<times> classification)" where
  "prepare_ticket parse tenant ticket_data =
     (case classify_ticket ticket_data of
        Inl e \<Rightarrow> Inl e
      | Inr c \<Rightarrow>
          (case parse_if_str parse (dict_get ticket_data ''created_at'') of
             Inl e \<Rightarrow> Inl e
           | Inr created_at \<Rightarrow>
               (case parse_if_str parse (dict_get ticket_data ''updated_at'') of
                  Inl e \<Rightarrow> Inl e
                | Inr updated_at \<Rightarrow>
                    Inr (ticket_doc tenant ticket_data created_at updated_at c, c))))"

text \<open>
  \<^verbatim>\<open>update_one(filter, {"$set": ticket_doc}, upsert=True)\<close> on the tickets. The store
  writes a datetime as its instant, in whole milliseconds. With no match the new
  document has the fields of the filter and of \<^verbatim>\<open>$set\<close>; a matched document counts
  as modified when a field of \<^verbatim>\<open>$set\<close> differs from what is stored.
\<close>

definition bson :: "val \<Rightarrow> val" where
  "bson v = (case v of VTime t \<Rightarrow> VTime (utc (ms (instant t))) | _ \<Rightarrow> v)"

definition apply_set :: "(string \<times> val) list \<Rightarrow> doc \<Rightarrow> doc" where
  "apply_set kvs d = fold (\<lambda>kv m. m(fst kv \<mapsto> bson (snd kv))) kvs d"

record update_result =
  upserted :: bool
  modified :: nat

definition upsert_ticket ::
  "string \<Rightarrow> val \<Rightarrow> (string \<times> val) list \<Rightarrow> doc list \<Rightarrow> update_result \<times> doc list" where
  "upsert_ticket tenant external_id set_doc ts =
     (case find (same_ticket tenant external_id) ts of
        None \<Rightarrow>
          (\<lparr> upserted = True, modified = 0 \<rparr>,
           ts @ [apply_set set_doc
                   [''tenant_id'' \<mapsto> VStr tenant, ''external_id'' \<mapsto> bson external_id]])
      | Some t \<Rightarrow>
          (\<lparr> upserted = False,
             modified = (if list_ex (\<lambda>kv. t (fst kv) \<noteq> Some (bson (snd kv))) set_doc
                         then 1 else 0) \<rparr>,
           update_first (same_ticket tenant external_id) (apply_set set_doc) ts))"

text \<open>
  \<open>send_notification\<close> creates a task and returns; the task runs beside the
  coordinator.
\<close>

definition send_notification :: "val \<Rightarrow> string \<Rightarrow> string \<Rightarrow> string \<Rightarrow> world \<Rightarrow> world" where
  "send_notification tid tenant urg reason w =
     w\<lparr>notifications := notifications w @
        [\<lparr> n_ticket_id = tid, n_tenant_id = tenant, n_urgency = urg, n_reason = reason \<rparr>]\<rparr>"

text \<open>The upsert, the counters, the "created" history record and the notification.\<close>

definition store_ticket ::
  "string \<Rightarrow> val \<Rightarrow> (string \<times> val) list \<Rightarrow> classification \<Rightarrow> world \<times> counters
     \<Rightarrow> world \<times> counters" where
  "store_ticket tenant external_id set_doc c wc =
     (case wc of
        (w, cnt) \<Rightarrow>
          (case upsert_ticket tenant external_id set_doc (tickets (store w)) of
             (res, ts) \<Rightarrow>
               (let d1 = (store w)\<lparr>tickets := ts\<rparr>;
                    d2 = (if upserted res
                          then record_history (clock w) external_id tenant ''created'' None d1
                          else d1);
                    cnt' = (if upserted res then cnt\<lparr>new_ingested := new_ingested cnt + 1\<rparr>
                            else if 0 < modified res then cnt\<lparr>updated := updated cnt + 1\<rparr>
                            else cnt);
                    w1 = w\<lparr>store := d2\<rparr>;
                    w2 = (if urgency c = ''high''
                          then send_notification external_id tenant ''high''
                                 ''High urgency ticket detected'' w1
                          else w1)
                in (w2, cnt'))))"

text \<open>
  The body of the loop over the tickets of a page. An exception of \<open>sync_ticket\<close>, of
  the classifier or of the date parser is counted in \<open>errors\<close> and the loop goes on;
  the id of the ticket is on the list of observed ids by then.
\<close>

definition process_ticket :: "env \<Rightarrow> string \<Rightarrow> doc \<Rightarrow> world \<times> counters \<Rightarrow> world \<times> counters" where
  "process_ticket env tenant ticket_data wc =
     (case wc of
        (w, cnt0) \<Rightarrow>
          (let external_id = dict_get ticket_data ''id'';
               cnt = cnt0\<lparr>all_external_ids := all_external_ids cnt0 @ [external_id]\<rparr>
           in case sync_ticket (date_parser env) (clock w) ticket_data tenant (store w) of
                Inl e \<Rightarrow> (w, cnt\<lparr>errors := errors cnt + 1\<rparr>)
              | Inr (sync_result, d1) \<Rightarrow>
                  (case prepare_ticket (date_parser env) tenant ticket_data of
                     Inl e \<Rightarrow> (w\<lparr>store := d1\<rparr>, cnt\<lparr>errors := errors cnt + 1\<rparr>)
                   | Inr (set_doc, c) \<Rightarrow>
                       store_ticket tenant external_id set_doc c (w\<lparr>store := d1\<rparr>, cnt))))"

subsection \<open>Ingestion coordinator: the loop over the pages\<close>

definition update_job :: "nat \<Rightarrow> (job_doc \<Rightarrow> job_doc) \<Rightarrow> db \<Rightarrow> db" where
  "update_job i f d =
     (if i < length (ingestion_jobs d)
      then d\<lparr>ingestion_jobs := (ingestion_jobs d)[i := f (ingestion_jobs d ! i)]\<rparr>
      else d)"

definition lock_name :: "string \<Rightarrow> string" where
  "lock_name tenant = ''ingest:'' @ tenant"

datatype step = Break | Raise exn | Next int

text \<open>
  A fetched page: the progress of the job, the tickets in order, then the test for the
  last page and the refresh of the lock on every fifth page.
\<close>

definition process_page ::
  "env \<Rightarrow> string \<Rightarrow> string \<Rightarrow> nat \<Rightarrow> int \<Rightarrow> page_data \<Rightarrow> world \<times> counters
     \<Rightarrow> step \<times> world \<times> counters" where
  "process_page env tenant job_id job_db_id page pd wc =
     (case wc of
        (w, cnt) \<Rightarrow>
          (let total_pages = p_total_pages pd;
               w1 = w\<lparr>store := update_job job_db_id
                      (\<lambda>j. j\<lparr>j_total_pages := Some total_pages, j_processed_pages := page,
                              j_progress := (if 0 < total_pages
                                             then progress_of env page total_pages
                                             else 0)\<rparr>)
                      (store w)\<rparr>
           in case fold (process_ticket env tenant) (p_tickets pd) (w1, cnt) of
                (w2, cnt2) \<Rightarrow>
                  if total_pages \<le> page then (Break, w2, cnt2)
                  else if (page + 1) mod 5 = 0
                  then (Next (page + 1),
                        w2\<lparr>store := snd (refresh_lock (clock w2) (lock_name tenant) job_id
                                            (store w2))\<rparr>,
                        cnt2)
                  else (Next (page + 1), w2, cnt2)))"

text \<open>
  One turn of \<^verbatim>\<open>while True\<close>: the cancellation flag, the rate limiter, the fetch (its
  sleeps move the clock on), then the page.
\<close>

definition page_step ::
  "env \<Rightarrow> string \<Rightarrow> string \<Rightarrow> nat \<Rightarrow> int \<Rightarrow> world \<times> counters \<Rightarrow> step \<times> world \<times> counters" where
  "page_step env tenant job_id job_db_id page wc =
     (case wc of
        (w, cnt) \<Rightarrow>
          (let w0 = concurrent_cancel env job_id w in
           if cancelled job_id w0 then (Break, w0, cnt)
           else
             (case wait_and_acquire (clock w0) (limiter w0) of
                (Some e, now', rl') \<Rightarrow> (Raise e, w0\<lparr>clock := now', limiter := rl'\<rparr>, cnt)
              | (None, now', rl') \<Rightarrow>
                  (let w1 = w0\<lparr>clock := now', limiter := rl'\<rparr> in
                   case fetch_page_with_retry (\<lambda>k. api env (requests w1 + k) tenant page) 3 of
                     (r, sleeps, n) \<Rightarrow>
                       (let w2 = w1\<lparr>requests := requests w1 + n,
                                     clock := clock w1
                                       + sum_list (map (\<lambda>s. max 0 (real_of_int s)) sleeps)\<rparr>
                        in case r of
                             Inl e \<Rightarrow> (Raise e, w2, cnt)
                           | Inr None \<Rightarrow> (Break, w2, cnt)
                           | Inr (Some pd) \<Rightarrow>
                               process_page env tenant job_id job_db_id page pd (w2, cnt))))))"

text \<open>
  The loop may go on for ever (the API names the number of pages anew on every page),
  so it runs on fuel: one unit per page.
\<close>

datatype loop_exit = Finished | Raised exn | OutOfFuel

fun page_loop ::
  "nat \<Rightarrow> env \<Rightarrow> string \<Rightarrow> string \<Rightarrow> nat \<Rightarrow> int \<Rightarrow> world \<times> counters
     \<Rightarrow> loop_exit \<times> world \<times> counters" where
  "page_loop 0 env tenant job_id job_db_id page wc = (OutOfFuel, wc)"
| "page_loop (Suc fuel) env tenant job_id job_db_id page wc =
     (case page_step env tenant job_id job_db_id page wc of
        (Break, wc') \<Rightarrow> (Finished, wc')
      | (Raise e, wc') \<Rightarrow> (Raised e, wc')
      | (Next page', wc') \<Rightarrow> page_loop fuel env tenant job_id job_db_id page' wc')"

subsection \<open>Ingestion coordinator: \<open>run_ingestion\<close>\<close>

text \<open>
  After the loop, still inside \<^verbatim>\<open>try\<close>: the reconciliation of deletions, the final
  status of the job, the audit log entry and the result.
\<close>

definition finish_run ::
  "env \<Rightarrow> string \<Rightarrow> string \<Rightarrow> nat \<Rightarrow> real \<Rightarrow> world \<times> counters \<Rightarrow> (exn + ingest_result) \<times> world" where
  "finish_run env tenant job_id job_db_id started_at wc =
     (case wc of
        (w, cnt) \<Rightarrow>
          (case detect_deleted_tickets tenant (all_external_ids cnt) (store w) of
             Inl e \<Rightarrow> (Inl e, w)
           | Inr deleted_ids \<Rightarrow>
               (let d1 = (if deleted_ids \<noteq> []
                          then snd (mark_deleted (clock w) tenant deleted_ids (store w))
                          else store w);
                    w1 = concurrent_cancel env job_id (w\<lparr>store := d1\<rparr>);
                    final_status = (if cancelled job_id w1 then ''cancelled'' else ''completed'');
                    d2 = update_job job_db_id
                           (\<lambda>j. j\<lparr>j_status := final_status, j_ended_at := Some (clock w1)\<rparr>)
                           (store w1);
                    log_status = (if 0 < errors cnt then ''PARTIAL_SUCCESS''
                                  else if final_status = ''failed'' then ''FAILED''
                                  else ''SUCCESS'');
                    d3 = d2\<lparr>ingestion_logs := ingestion_logs d2 @
                           [\<lparr> l_tenant_id = tenant, l_job_id = job_id, l_status = log_status,
                              l_error = None, l_started_at = started_at,
                              l_ended_at = clock w1, l_new_ingested = new_ingested cnt,
                              l_updated = updated cnt, l_errors = errors cnt \<rparr>]\<rparr>
                in (Inr \<lparr> r_status = final_status, r_job_id = JobId job_id,
                          r_new_ingested = new_ingested cnt, r_updated = updated cnt,
                          r_errors = errors cnt \<rparr>,
                    w1\<lparr>store := d3\<rparr>))))"

text \<open>The \<^verbatim>\<open>except Exception\<close> handler: the audit log entry, then the job.\<close>

definition fail_run ::
  "string \<Rightarrow> string \<Rightarrow> nat \<Rightarrow> real \<Rightarrow> exn \<Rightarrow> world \<times> counters \<Rightarrow> world" where
  "fail_run tenant job_id job_db_id started_at e wc =
     (case wc of
        (w, cnt) \<Rightarrow>
          (let d1 = (store w)\<lparr>ingestion_logs := ingestion_logs (store w) @
                      [\<lparr> l_tenant_id = tenant, l_job_id = job_id, l_status = ''failed'',
                         l_error = Some e, l_started_at = started_at,
                         l_ended_at = clock w, l_new_ingested = new_ingested cnt,
                         l_updated = updated cnt, l_errors = errors cnt \<rparr>]\<rparr>;
               d2 = update_job job_db_id
                      (\<lambda>j. j\<lparr>j_status := ''failed'', j_ended_at := Some (clock w)\<rparr>) d1
           in w\<lparr>store := d2\<rparr>))"

text \<open>The \<^verbatim>\<open>finally\<close> block: the lock, then the flag.\<close>

definition finally_release :: "string \<Rightarrow> string \<Rightarrow> world \<Rightarrow> world" where
  "finally_release tenant job_id w =
     w\<lparr>store := snd (release_lock (lock_name tenant) job_id (store w)),
       cancellation_flags := (cancellation_flags w)(job_id := None)\<rparr>"

text \<open>The job document and the cancellation flag of a new run; the counters at zero.\<close>

definition start_job :: "string \<Rightarrow> string \<Rightarrow> world \<Rightarrow> world" where
  "start_job tenant job_id w =
     w\<lparr>store := (store w)\<lparr>ingestion_jobs := ingestion_jobs (store w) @
            [\<lparr> j_tenant_id = tenant, j_status = ''running'', j_started_at = clock w,
               j_ended_at = None, j_progress = 0, j_total_pages = None,
               j_processed_pages = 0, j_job_id = job_id \<rparr>]\<rparr>,
       cancellation_flags := (cancellation_flags w)(job_id \<mapsto> False)\<rparr>"

definition zero_counters :: counters where
  "zero_counters = \<lparr> new_ingested = 0, updated = 0, errors = 0, all_external_ids = [] \<rparr>"

text \<open>
  From the insertion of the job document on. The result is \<open>None\<close> when the fuel runs
  out before the loop over the pages ends.
\<close>

definition run_job ::
  "nat \<Rightarrow> env \<Rightarrow> string \<Rightarrow> string \<Rightarrow> world \<Rightarrow> (exn + ingest_result) option \<times> world" where
  "run_job fuel env tenant job_id w =
     (let started_at = clock w;
          job_db_id = length (ingestion_jobs (store w))
      in case page_loop fuel env tenant job_id job_db_id 1
                (start_job tenant job_id w, zero_counters) of
           (OutOfFuel, w2, cnt) \<Rightarrow> (None, w2)
         | (Raised e, w2, cnt) \<Rightarrow>
             (Some (Inl e),
              finally_release tenant job_id
                (fail_run tenant job_id job_db_id started_at e (w2, cnt)))
         | (Finished, w2, cnt) \<Rightarrow>
             (case finish_run env tenant job_id job_db_id started_at (w2, cnt) of
                (Inl e, w3) \<Rightarrow>
                  (Some (Inl e),
                   finally_release tenant job_id
                     (fail_run tenant job_id job_db_id started_at e (w3, cnt)))
              | (Inr r, w3) \<Rightarrow> (Some (Inr r), finally_release tenant job_id w3)))"

text \<open>The position of the first element that satisfies \<open>P\<close>.\<close>

fun first_index :: "('a \<Rightarrow> bool) \<Rightarrow> 'a list \<Rightarrow> nat option" where
  "first_index P [] = None"
| "first_index P (x # xs) =
     (if P x then Some 0 else map_option Suc (first_index P xs))"

text \<open>
  \<open>run_ingestion\<close>: the lock; when it is not acquired, the search for a running job of
  the tenant, and the early return only if one is found; otherwise the run.
\<close>

definition run_ingestion ::
  "nat \<Rightarrow> env \<Rightarrow> string \<Rightarrow> world \<Rightarrow> (exn + ingest_result) option \<times> world" where
  "run_ingestion fuel env tenant w =
     (let job_id = uuid4 env in
      case acquire_lock (clock w) (lock_name tenant) job_id (store w) of
        (lock_acquired, d1) \<Rightarrow>
          (case (if lock_acquired then None
                 else first_index (\<lambda>j. j_tenant_id j = tenant \<and> j_status j = ''running'')
                        (ingestion_jobs d1)) of
             Some existing_job \<Rightarrow>
               (Some (Inr \<lparr> r_status = ''already_running'', r_job_id = DbId existing_job,
                            r_new_ingested = 0, r_updated = 0, r_errors = 0 \<rparr>),
                w\<lparr>store := d1\<rparr>)
           | None \<Rightarrow> run_job fuel env tenant job_id (w\<lparr>store := d1\<rparr>)))"

subsection \<open>Sequences of ingestion operations\<close>

text \<open>
  The operations that write to the tickets, with the passing of time between them:
  a run of the coordinator, a \<open>sync_ticket\<close> (an exception leaves the store as it was),
  a \<open>mark_deleted\<close>. The removal of old tickets by the store's own TTL index
  (\<^verbatim>\<open>ttl_created_at\<close>) is not one of them.
\<close>

datatype ingest_op =
    RunIngestion nat env string
  | SyncTicket "string \<Rightarrow> datetime option" doc string
  | MarkDeleted string "val list"
  | Elapse real

fun apply_op :: "ingest_op \<Rightarrow> world \<Rightarrow> world" where
  "apply_op (RunIngestion fuel env tenant) w = snd (run_ingestion fuel env tenant w)"
| "apply_op (SyncTicket parse external_ticket tenant) w =
     (case sync_ticket parse (clock w) external_ticket tenant (store w) of
        Inl e \<Rightarrow> w
      | Inr (r, d) \<Rightarrow> w\<lparr>store := d\<rparr>)"
| "apply_op (MarkDeleted tenant external_ids) w =
     w\<lparr>store := snd (mark_deleted (clock w) tenant external_ids (store w))\<rparr>"
| "apply_op (Elapse secs) w = w\<lparr>clock := clock w + max 0 secs\<rparr>"

text \<open>
  \<open>deleted_kept ts ts'\<close>: every document of \<open>ts\<close> is still there in \<open>ts'\<close>, at its
  position, and a \<open>deleted_at\<close> it had is the \<open>deleted_at\<close> it has.
\<close>

definition deleted_kept :: "doc list \<Rightarrow> doc list \<Rightarrow> bool" where
  "deleted_kept ts ts' =
     (length ts \<le> length ts'
      \<and> (\<forall>i v. i < length ts \<and> (ts ! i) ''deleted_at'' = Some v
                 \<longrightarrow> (ts' ! i) ''deleted_at'' = Some v))"

text \<open>
  \<open>run_frame d d'\<close>: from \<open>d\<close> to \<open>d'\<close> the audit log is unchanged and the tickets keep
  their deletion stamps.
\<close>

definition run_frame :: "db \<Rightarrow> db \<Rightarrow> bool" where
  "run_frame d d' =
     (ingestion_logs d' = ingestion_logs d \<and> deleted_kept (tickets d) (tickets d'))"

text \<open>
  The counters of a run at the end of its loop over the pages, however the loop ends.
\<close>

definition counters_of_run :: "nat \<Rightarrow> env \<Rightarrow> string \<Rightarrow> world \<Rightarrow> counters" where
  "counters_of_run fuel env tenant w =
     (let w1 = w\<lparr>store := snd (acquire_lock (clock w) (lock_name tenant) (uuid4 env) (store w))\<rparr>
      in snd (snd (page_loop fuel env tenant (uuid4 env) (length (ingestion_jobs (store w1))) 1
                     (start_job tenant (uuid4 env) w1, zero_counters))))"

subsection \<open>Worlds and environments of the examples\<close>

definition empty_db :: db where
  "empty_db = \<lparr> tickets = [], ticket_history = [], ingestion_jobs = [], ingestion_logs = [],
                distributed_locks = [] \<rparr>"

text \<open>A process at clock reading 1 with a fresh limiter, over the store \<open>d\<close>.\<close>

definition idle_world :: "db \<Rightarrow> world" where
  "idle_world d = \<lparr> store = d, clock = 1, limiter = get_rate_limiter,
                    cancellation_flags = Map.empty, notifications = [], requests = 0 \<rparr>"




text \<open>An API with a single page of the given tickets; the job drawn is "job-B".\<close>

definition one_page_env :: "doc list \<Rightarrow> env" where
  "one_page_env tds =
     \<lparr> api = (\<lambda>k tenant page.
                Response 200 NoHeader (Json (Some \<lparr> p_tickets = tds, p_total_pages = 1 \<rparr>))),
       date_parser = (\<lambda>s. None), uuid4 = ''job-B'', cancel_after = None,
       progress_of = (\<lambda>page total_pages. (page * 100) div total_pages) \<rparr>"

text \<open>An API that cannot be reached.\<close>

definition down_env :: env where
  "down_env = \<lparr> api = (\<lambda>k tenant page. NetworkError), date_parser = (\<lambda>s. None),
                uuid4 = ''job-B'', cancel_after = None,
                progress_of = (\<lambda>page total_pages. (page * 100) div total_pages) \<rparr>"

text \<open>The lock of tenant T1 held by "job-A" until clock reading 60.\<close>

definition lock_of_job_A :: lock_doc where
  "lock_of_job_A = \<lparr> resource_id = ''ingest:T1'', owner_id = ''job-A'', acquired_at = 0,
                     expires_at = 60 \<rparr>"

definition job_A :: job_doc where
  "job_A = \<lparr> j_tenant_id = ''T1'', j_status = ''running'', j_started_at = 0,
             j_ended_at = None, j_progress = 0, j_total_pages = None,
             j_processed_pages = 0, j_job_id = ''job-A'' \<rparr>"

section \<open>Properties\<close>

subsection \<open>Properties of the classifier\<close>

lemma str_in_substring: "str_in k t = substring_of k t"
proof (induction t)
  case Nil
  show ?case by (auto simp: substring_of_def)
next
  case (Cons c cs)
  show ?case
  proof
    assume "str_in k (c # cs)"
    then consider "prefix k (c # cs)" | "str_in k cs" by auto
    then show "substring_of k (c # cs)"
    proof cases
      case 1
      then obtain s where "c # cs = k @ s" by (auto simp: prefix_def)
      then have "c # cs = [] @ k @ s" by simp
      then show ?thesis unfolding substring_of_def by blast
    next
      case 2
      with Cons obtain p s where "cs = p @ k @ s" by (auto simp: substring_of_def)
      then have "c # cs = (c # p) @ k @ s" by simp
      then show ?thesis unfolding substring_of_def by blast
    qed
  next
    assume "substring_of k (c # cs)"
    then obtain p s where ps: "c # cs = p @ k @ s" by (auto simp: substring_of_def)
    show "str_in k (c # cs)"
    proof (cases p)
      case Nil
      with ps have "prefix k (c # cs)" by (simp add: prefix_def)
      then show ?thesis by simp
    next
      case (Cons a p')
      with ps have "cs = p' @ k @ s" by simp
      then have "substring_of k cs" unfolding substring_of_def by blast
      with Cons.IH show ?thesis by simp
    qed
  qed
qed

lemma any_in_matches: "any_in ks t = matches_any ks t"
  by (auto simp: any_in_def matches_any_def list_ex_iff str_in_substring)

text \<open>
  C5. The urgency is high iff a keyword of the high set is a substring of the
  lowercased text "subject message", else medium iff a medium keyword is, else low;
  the sentiment is negative iff a negative keyword is a substring (tested before the
  positive set), else positive iff a positive keyword is, else neutral;
  \<open>requires_action\<close> holds iff an action keyword is a substring. The match is plain
  containment. Subject "Broken" with message "disappointed" is classified high,
  negative, requiring action.
\<close>

theorem classify_by_substring:
  "urgency (classify message subject) =
     (if matches_any high_urgency_keywords (lower (subject @ '' '' @ message)) then ''high''
      else if matches_any medium_urgency_keywords (lower (subject @ '' '' @ message))
        then ''medium''
      else ''low'')
   \<and> sentiment (classify message subject) =
     (if matches_any negative_keywords (lower (subject @ '' '' @ message)) then ''negative''
      else if matches_any positive_keywords (lower (subject @ '' '' @ message))
        then ''positive''
      else ''neutral'')
   \<and> requires_action (classify message subject) =
       matches_any action_required_keywords (lower (subject @ '' '' @ message))
   \<and> classify ''disappointed'' ''Broken'' =
       \<lparr> urgency = ''high'', sentiment = ''negative'', requires_action = True \<rparr>"
proof -
  have ex: "lower (''Broken'' @ '' '' @ ''disappointed'') = ''broken disappointed''"
    by code_simp
  have h: "any_in high_urgency_keywords ''broken disappointed''"
    by (simp add: any_in_def high_urgency_keywords_def)
  have n: "any_in negative_keywords ''broken disappointed''"
    by (simp add: any_in_def negative_keywords_def)
  have a: "any_in action_required_keywords ''broken disappointed''"
    by (simp add: any_in_def action_required_keywords_def)
  have "classify ''disappointed'' ''Broken'' =
       \<lparr> urgency = ''high'', sentiment = ''negative'', requires_action = True \<rparr>"
    unfolding classify_def Let_def ex using h n a by simp
  then show ?thesis
    by (simp add: classify_def Let_def any_in_matches)
qed

subsection \<open>Properties of the rate limiter\<close>

lemma evict_sorted:
  "sorted ts \<Longrightarrow> evict now w ts = filter (\<lambda>t. \<not> now - t > w) ts"
proof (induction ts)
  case Nil
  show ?case by simp
next
  case (Cons t ts)
  show ?case
  proof (cases "now - t > w")
    case True
    with Cons show ?thesis by simp
  next
    case False
    from Cons.prems have "\<forall>u\<in>set ts. t \<le> u" by simp
    with False have "\<forall>u\<in>set ts. \<not> now - u > w" by fastforce
    then have "filter (\<lambda>t. \<not> now - t > w) ts = ts" by (simp add: filter_id_conv)
    with False show ?thesis by simp
  qed
qed

lemma evict_length: "length (evict now w ts) \<le> length ts"
  by (induction ts) auto

lemma evict_hd: "evict now w ts = t # q \<Longrightarrow> \<not> now - t > w"
  by (induction ts) (auto split: if_splits)

lemma evict_replicate: "\<not> now - t > w \<Longrightarrow> evict now w (replicate n t) = replicate n t"
  by (cases n) auto

text \<open>
  C8, as the code has it. With the limit and the window at 60: \<open>acquire\<close> removes the
  leading timestamps older than \<open>now - 60\<close> (all of them when the timestamps are in
  non-decreasing order); if fewer than 60 remain it appends \<open>now\<close> and returns 0,
  otherwise it returns \<open>60 - (now - oldest)\<close> and appends nothing. A timestamp is
  recorded only if the wait is 0; the wait is 0 with nothing recorded exactly when 60
  or more remain and the oldest is exactly 60 seconds old. A window of at most 60
  timestamps stays at most 60 long.
\<close>

theorem acquire_sliding_window:
  assumes "requests_per_minute rl = 60" and "window_seconds rl = 60"
  shows "(let q = evict now 60 (request_times rl) in
     acquire now rl =
       (if length q < 60 then (Inr 0, rl\<lparr>request_times := q @ [now]\<rparr>)
        else (Inr (60 - (now - hd q)), rl\<lparr>request_times := q\<rparr>))
     \<and> (sorted (request_times rl) \<longrightarrow> q = filter (\<lambda>t. \<not> now - t > 60) (request_times rl))
     \<and> (request_times (snd (acquire now rl)) = q @ [now] \<longrightarrow> fst (acquire now rl) = Inr 0)
     \<and> ((fst (acquire now rl) = Inr 0 \<and> request_times (snd (acquire now rl)) = q)
          = (60 \<le> length q \<and> now - hd q = 60))
     \<and> (length (request_times rl) \<le> 60 \<longrightarrow> length (request_times (snd (acquire now rl))) \<le> 60))"
proof -
  define q where "q = evict now 60 (request_times rl)"
  have eq: "acquire now rl =
       (if length q < 60 then (Inr 0, rl\<lparr>request_times := q @ [now]\<rparr>)
        else (Inr (60 - (now - hd q)), rl\<lparr>request_times := q\<rparr>))"
  proof (cases "length q < 60")
    case True
    then show ?thesis using assms by (simp add: acquire_def q_def Let_def)
  next
    case False
    then obtain t q' where tq: "q = t # q'" by (cases q) auto
    then have "\<not> now - t > 60" using evict_hd[of now 60 "request_times rl" t q'] by (simp add: q_def)
    then have "max 0 (60 - (now - t)) = 60 - (now - t)" by simp
    then show ?thesis using False assms tq q_def by (simp add: acquire_def Let_def)
  qed
  have s: "sorted (request_times rl) \<longrightarrow> q = filter (\<lambda>t. \<not> now - t > 60) (request_times rl)"
    by (simp add: q_def evict_sorted)
  have r: "request_times (snd (acquire now rl)) = q @ [now] \<longrightarrow> fst (acquire now rl) = Inr 0"
    by (simp add: eq)
  have z: "(fst (acquire now rl) = Inr 0 \<and> request_times (snd (acquire now rl)) = q)
          = (60 \<le> length q \<and> now - hd q = 60)"
    by (auto simp: eq)
  have l: "length (request_times rl) \<le> 60 \<longrightarrow> length (request_times (snd (acquire now rl))) \<le> 60"
    using evict_length[of now 60 "request_times rl"] by (auto simp: eq q_def)
  show ?thesis unfolding Let_def q_def[symmetric] using eq s r z l by blast
qed

theorem acquire_sliding_window_witness:
  "acquire 100 \<lparr> requests_per_minute = 60, window_seconds = 60, request_times = [0, 50] \<rparr>
     = (Inr 0, \<lparr> requests_per_minute = 60, window_seconds = 60, request_times = [50, 100] \<rparr>)
   \<and> evict 100 60 [0, 50] = filter (\<lambda>t. \<not> 100 - t > 60) [0, 50]"
  using acquire_sliding_window[of "\<lparr> requests_per_minute = 60, window_seconds = 60, request_times = [0, 50] \<rparr>" 100]
  by (simp add: Let_def)

text \<open>
  The claim "a timestamp is recorded iff the returned wait is 0" fails on the boundary:
  60 requests at time 0 and a call at time 60 give the wait 0 and record nothing. And
  in a queue that is not in time order an old timestamp behind a recent one stays.
\<close>

theorem acquire_zero_wait_unrecorded:
  "acquire 60 \<lparr> requests_per_minute = 60, window_seconds = 60, request_times = replicate 60 0 \<rparr>
     = (Inr 0, \<lparr> requests_per_minute = 60, window_seconds = 60, request_times = replicate 60 0 \<rparr>)
   \<and> request_times (snd (acquire 100
        \<lparr> requests_per_minute = 60, window_seconds = 60, request_times = [50, 0] \<rparr>)) = [50, 0, 100]"
proof -
  have e: "evict 60 60 (replicate 60 0) = replicate 60 0" by (rule evict_replicate) simp
  have "(60::nat) = Suc 59" by simp
  then have n: "replicate 60 (0::real) = 0 # replicate 59 0" by (simp only: replicate_Suc)
  show ?thesis
    apply (simp add: acquire_def Let_def e)
    apply (simp add: n)
    done
qed

subsection \<open>Properties of the lock service\<close>

lemma find_update_first:
  "find P xs = Some x \<Longrightarrow> P (f x) \<Longrightarrow> find P (update_first P f xs) = Some (f x)"
  by (induction xs) (auto split: if_splits)

lemma update_first_no_match: "find P xs = None \<Longrightarrow> update_first P f xs = xs"
  by (induction xs) (auto split: if_splits)

lemma ms_whole: "ms (of_int k) = of_int k"
  by (simp add: ms_def)

text \<open>
  The answer of \<open>refresh_lock\<close>: true when the lock document of that resource and owner
  exists and the millisecond of its \<open>expires_at\<close> is not already the one of \<open>now + 60\<close>.
\<close>

lemma refresh_lock_answer:
  "fst (refresh_lock now resource owner d) \<longleftrightarrow>
     (\<exists>l. find (\<lambda>l. resource_id l = resource \<and> owner_id l = owner) (distributed_locks d) = Some l
          \<and> expires_at l \<noteq> ms (now + 60))"
  by (simp add: refresh_lock_def Let_def LOCK_TTL_SECONDS_def split: option.splits)

text \<open>
  C7 fails on the code. A job takes the lock of its tenant at time 0 and refreshes it
  0.4 ms later. The lock document of that resource and owner exists and the update
  matches it; the new \<open>expires_at\<close> is in the same millisecond as the stored one, so the
  store modifies nothing and \<open>refresh_lock\<close> answers \<^verbatim>\<open>False\<close> to the owner of a lock
  that is valid for 60 more seconds. One second later the same call answers
  \<^verbatim>\<open>True\<close>.
\<close>

theorem refresh_lock_same_millisecond:
  "acquire_lock 0 ''ingest:T1'' ''job-A'' empty_db =
     (True, empty_db\<lparr>distributed_locks :=
              [\<lparr> resource_id = ''ingest:T1'', owner_id = ''job-A'',
                 acquired_at = 0, expires_at = 60 \<rparr>]\<rparr>)
   \<and> refresh_lock (1 / 2500) ''ingest:T1'' ''job-A''
       (empty_db\<lparr>distributed_locks :=
              [\<lparr> resource_id = ''ingest:T1'', owner_id = ''job-A'',
                 acquired_at = 0, expires_at = 60 \<rparr>]\<rparr>) =
     (False, empty_db\<lparr>distributed_locks :=
              [\<lparr> resource_id = ''ingest:T1'', owner_id = ''job-A'',
                 acquired_at = 0, expires_at = 60 \<rparr>]\<rparr>)
   \<and> refresh_lock 1 ''ingest:T1'' ''job-A''
       (empty_db\<lparr>distributed_locks :=
              [\<lparr> resource_id = ''ingest:T1'', owner_id = ''job-A'',
                 acquired_at = 0, expires_at = 60 \<rparr>]\<rparr>) =
     (True, empty_db\<lparr>distributed_locks :=
              [\<lparr> resource_id = ''ingest:T1'', owner_id = ''job-A'',
                 acquired_at = 0, expires_at = 61 \<rparr>]\<rparr>)"
proof -
  have f: "\<lfloor>300002 / 5 :: real\<rfloor> = 60000"
    by simp
  have e: "150001 / 2500 * 1000 = (300002 / 5 :: real)"
    by simp
  have m: "ms 0 = 0" "ms 60 = 60" "ms 61 = 61"
    by (simp_all add: ms_def)
  have "ms (150001 / 2500) = of_int 60000 / 1000"
    unfolding ms_def e f ..
  then have m': "ms (150001 / 2500) = 60"
    by simp
  show ?thesis
    by (simp add: acquire_lock_def refresh_lock_def Let_def LOCK_TTL_SECONDS_def empty_db_def m m')
qed

subsection \<open>Properties of the synchroniser\<close>

lemma fold_record_history:
  "ticket_history (fold (\<lambda>i. record_history now i tenant act None) ids d) =
     ticket_history d @
       map (\<lambda>i. \<lparr> h_ticket_id = i, h_tenant_id = tenant, h_action = act,
                   h_changes = [], h_recorded_at = now \<rparr>) ids"
  by (induction ids arbitrary: d) (auto simp: record_history_def)

lemma fold_record_history_tickets:
  "tickets (fold (\<lambda>i. record_history now i tenant act chg) ids d) = tickets d"
  by (induction ids arbitrary: d) (auto simp: record_history_def)

lemma stamped_differs:
  "to_delete tenant ids t \<Longrightarrow> t = t(''deleted_at'' \<mapsto> v) \<Longrightarrow> False"
  by (metis fld_exists_def fun_upd_same option.distinct(1) to_delete_def)

lemma modified_count:
  "length (filter (\<lambda>(old, new). old \<noteq> new)
     (zip ts (map (\<lambda>t. if to_delete tenant ids t then t(''deleted_at'' \<mapsto> v) else t) ts)))
   = length (filter (to_delete tenant ids) ts)"
  by (induction ts) (auto dest: stamped_differs)

text \<open>
  C10. For a non-empty list \<open>mark_deleted\<close> appends one "deleted" history record per
  element of the list, in order, whatever the tickets are, and returns the number of
  ticket documents the update modified (those of the tenant with a listed id and no
  \<open>deleted_at\<close>); so the records written can outnumber the count returned. For the
  empty list it returns 0 and leaves the store as it is.
\<close>

theorem mark_deleted_history_per_id:
  "(external_ids \<noteq> [] \<longrightarrow>
      ticket_history (snd (mark_deleted now tenant external_ids d)) =
        ticket_history d @
          map (\<lambda>i. \<lparr> h_ticket_id = i, h_tenant_id = tenant, h_action = ''deleted'',
                      h_changes = [], h_recorded_at = now \<rparr>) external_ids
      \<and> fst (mark_deleted now tenant external_ids d) =
          length (filter (\<lambda>(old, new). old \<noteq> new)
            (zip (tickets d) (tickets (snd (mark_deleted now tenant external_ids d)))))
      \<and> fst (mark_deleted now tenant external_ids d) =
          length (filter (to_delete tenant external_ids) (tickets d)))
   \<and> mark_deleted now tenant [] d = (0, d)
   \<and> (\<exists>d0 ids. fst (mark_deleted now tenant ids d0)
          < length (ticket_history (snd (mark_deleted now tenant ids d0)))
            - length (ticket_history d0))"
proof -
  have a: "external_ids \<noteq> [] \<longrightarrow>
      ticket_history (snd (mark_deleted now tenant external_ids d)) =
        ticket_history d @
          map (\<lambda>i. \<lparr> h_ticket_id = i, h_tenant_id = tenant, h_action = ''deleted'',
                      h_changes = [], h_recorded_at = now \<rparr>) external_ids"
    by (simp add: mark_deleted_def Let_def fold_record_history)
  have b: "external_ids \<noteq> [] \<longrightarrow> fst (mark_deleted now tenant external_ids d) =
          length (filter (\<lambda>(old, new). old \<noteq> new)
            (zip (tickets d) (tickets (snd (mark_deleted now tenant external_ids d)))))"
    by (simp add: mark_deleted_def Let_def fold_record_history_tickets modified_count)
  have c: "external_ids \<noteq> [] \<longrightarrow> fst (mark_deleted now tenant external_ids d) =
          length (filter (to_delete tenant external_ids) (tickets d))"
    by (simp add: mark_deleted_def Let_def)
  have e: "mark_deleted now tenant [] d = (0, d)"
    by (simp add: mark_deleted_def)
  let ?d0 = "\<lparr> tickets = [], ticket_history = [], ingestion_jobs = [], ingestion_logs = [],
       distributed_locks = [] \<rparr>"
  have "fst (mark_deleted now tenant [VStr ''X2''] ?d0)
          < length (ticket_history (snd (mark_deleted now tenant [VStr ''X2''] ?d0)))
            - length (ticket_history ?d0)"
    by (simp add: mark_deleted_def Let_def record_history_def)
  then have x: "\<exists>d0 ids. fst (mark_deleted now tenant ids d0)
          < length (ticket_history (snd (mark_deleted now tenant ids d0)))
            - length (ticket_history d0)"
    by blast
  from a b c e x show ?thesis by blast
qed

theorem mark_deleted_history_per_id_witness:
  "ticket_history (snd (mark_deleted 5 ''t1'' [VStr ''X2'', VStr ''X9'']
      \<lparr> tickets = [[''tenant_id'' \<mapsto> VStr ''t1'', ''external_id'' \<mapsto> VStr ''X2'']],
        ticket_history = [], ingestion_jobs = [], ingestion_logs = [],
        distributed_locks = [] \<rparr>)) =
     [\<lparr> h_ticket_id = VStr ''X2'', h_tenant_id = ''t1'', h_action = ''deleted'',
        h_changes = [], h_recorded_at = 5 \<rparr>,
      \<lparr> h_ticket_id = VStr ''X9'', h_tenant_id = ''t1'', h_action = ''deleted'',
        h_changes = [], h_recorded_at = 5 \<rparr>]
   \<and> fst (mark_deleted 5 ''t1'' [VStr ''X2'', VStr ''X9'']
      \<lparr> tickets = [[''tenant_id'' \<mapsto> VStr ''t1'', ''external_id'' \<mapsto> VStr ''X2'']],
        ticket_history = [], ingestion_jobs = [], ingestion_logs = [],
        distributed_locks = [] \<rparr>) = 1"
  using mark_deleted_history_per_id[of "[VStr ''X2'', VStr ''X9'']" 5 "''t1''"
      "\<lparr> tickets = [[''tenant_id'' \<mapsto> VStr ''t1'', ''external_id'' \<mapsto> VStr ''X2'']],
        ticket_history = [], ingestion_jobs = [], ingestion_logs = [],
        distributed_locks = [] \<rparr>"]
  by (simp add: to_delete_def fld_eq_def fld_in_def fld_exists_def)




subsection \<open>Properties of the analytics aggregator\<close>








subsection \<open>Properties of the page fetch\<close>

lemma try_request_not_429_error: "try_request r \<noteq> Failed (HTTPStatusError 429)"
  by (auto simp: try_request_def split: http_result.splits retry_after.splits body.splits)

lemma upt_3: "[0..<3] = [0, 1, 2]"
  by (simp add: upt_rec)

lemma fetch_three:
  "fetch_page_with_retry get 3 =
     (case try_request (get 0) of
        Return v \<Rightarrow> (Inr v, [], 1)
      | o0 \<Rightarrow>
        (case try_request (get 1) of
           Return v \<Rightarrow> (Inr v, pause 0 o0, 2)
         | o1 \<Rightarrow>
           (case try_request (get 2) of
              Return v \<Rightarrow> (Inr v, pause 0 o0 @ pause 1 o1, 3)
            | RateLimited n \<Rightarrow> (Inr None, pause 0 o0 @ pause 1 o1 @ [n], 3)
            | Failed e \<Rightarrow> (Inl e, pause 0 o0 @ pause 1 o1, 3))))"
  using try_request_not_429_error[of "get 0"] try_request_not_429_error[of "get 1"]
    try_request_not_429_error[of "get 2"]
  by (simp add: fetch_page_with_retry_def upt_3 then_on_def pause_def split: try_outcome.splits)

text \<open>
  C3, as the code has it. The function sends at most three requests. The first attempt
  whose answer is a 2xx response with a JSON body returns the decoded body, after the
  pauses of the attempts before it: an answer 429 is followed by a sleep of the
  \<^verbatim>\<open>Retry-After\<close> seconds (60 without the header) and the next attempt, and it uses up
  its attempt; an error is followed by the backoff and the next attempt. When no
  attempt returns and the third one fails with an HTTP or network error, that
  exception is raised.
\<close>

theorem fetch_page_with_retry_three_attempts:
  "snd (snd (fetch_page_with_retry get 3)) \<le> 3
   \<and> (\<forall>k v. k < 3 \<and> (\<forall>j<k. \<forall>u. try_request (get j) \<noteq> Return u)
            \<and> try_request (get k) = Return v \<longrightarrow>
        fetch_page_with_retry get 3 =
          (Inr v, concat (map (\<lambda>j. pause j (try_request (get j))) [0..<k]), Suc k))
   \<and> (\<forall>e. (\<forall>j<3. \<forall>u. try_request (get j) \<noteq> Return u)
          \<and> try_request (get 2) = Failed e \<longrightarrow>
        fetch_page_with_retry get 3 =
          (Inl e, concat (map (\<lambda>j. pause j (try_request (get j))) [0..<2]), 3))
   \<and> pause j (RateLimited n) = [n]
   \<and> pause j (Failed e') = (if j < 2 then [2 ^ j] else [])
   \<and> try_request (Response 429 NoHeader b) = RateLimited 60
   \<and> try_request (Response 429 (HeaderInt n) b) = RateLimited n
   \<and> (200 \<le> s \<and> s \<le> 299 \<longrightarrow> try_request (Response s h (Json v)) = Return v)
   \<and> (s \<noteq> 429 \<and> \<not> (200 \<le> s \<and> s \<le> 299) \<longrightarrow>
        try_request (Response s h b) = Failed (HTTPStatusError s))
   \<and> try_request NetworkError = Failed ConnectError"
proof -
  let ?p = "\<lambda>j. pause j (try_request (get j))"
  have u2: "[0..<2] = [0, Suc 0]" by (simp add: upt_rec)
  have a: "snd (snd (fetch_page_with_retry get 3)) \<le> 3"
    by (simp add: fetch_three split: try_outcome.splits)
  have b: "fetch_page_with_retry get 3 = (Inr v, concat (map ?p [0..<k]), Suc k)"
    if k: "k < 3" and f: "\<forall>j<k. \<forall>u. try_request (get j) \<noteq> Return u"
      and r: "try_request (get k) = Return v" for k v
  proof -
    from k consider "k = 0" | "k = 1" | "k = 2" by linarith
    then show ?thesis
    proof cases
      case 1
      with r show ?thesis by (simp add: fetch_three)
    next
      case 2
      with f have "\<forall>u. try_request (get 0) \<noteq> Return u" by simp
      with r 2 show ?thesis by (simp add: fetch_three split: try_outcome.splits)
    next
      case 3
      with f have "\<forall>u. try_request (get 0) \<noteq> Return u" "\<forall>u. try_request (get 1) \<noteq> Return u"
        by simp_all
      with r 3 show ?thesis by (simp add: fetch_three u2 split: try_outcome.splits)
    qed
  qed
  have c: "fetch_page_with_retry get 3 = (Inl e, concat (map ?p [0..<2]), 3)"
    if f: "\<forall>j<3. \<forall>u. try_request (get j) \<noteq> Return u"
      and r: "try_request (get 2) = Failed e" for e
  proof -
    from f have "\<forall>u. try_request (get 0) \<noteq> Return u" "\<forall>u. try_request (get 1) \<noteq> Return u"
      by simp_all
    with r show ?thesis
      by (simp add: fetch_three u2 split: try_outcome.splits)
  qed
  have p: "pause j (RateLimited n) = [n]" "pause j (Failed e') = (if j < 2 then [2 ^ j] else [])"
    by (simp_all add: pause_def)
  have d: "try_request (Response 429 NoHeader b) = RateLimited 60"
    "try_request (Response 429 (HeaderInt n) b) = RateLimited n"
    "200 \<le> s \<and> s \<le> 299 \<longrightarrow> try_request (Response s h (Json v)) = Return v"
    "s \<noteq> 429 \<and> \<not> (200 \<le> s \<and> s \<le> 299) \<longrightarrow>
        try_request (Response s h b) = Failed (HTTPStatusError s)"
    "try_request NetworkError = Failed ConnectError"
    by (auto simp: try_request_def raise_for_status_def)
  from a b c p d show ?thesis by blast
qed

text \<open>
  An instance: the first request is answered with 500, the second with 429 and
  \<^verbatim>\<open>Retry-After: 2\<close>, the third with 200 and a page. The page is returned after three
  requests and sleeps of 1 and 2 seconds.
\<close>

theorem fetch_page_with_retry_three_attempts_witness:
  "fetch_page_with_retry
     (\<lambda>k. if k = 0 then Response 500 NoHeader NotJson
           else if k = 1 then Response 429 (HeaderInt 2) NotJson
           else Response 200 NoHeader (Json (Some \<lparr> p_tickets = [], p_total_pages = 1 \<rparr>))) 3
   = (Inr (Some \<lparr> p_tickets = [], p_total_pages = 1 \<rparr>), [1, 2], 3)"
proof -
  let ?get = "\<lambda>k::nat. if k = 0 then Response 500 NoHeader NotJson
           else if k = 1 then Response 429 (HeaderInt 2) NotJson
           else Response 200 NoHeader (Json (Some \<lparr> p_tickets = [], p_total_pages = 1 \<rparr>))"
  have t0: "try_request (?get 0) = Failed (HTTPStatusError 500)"
    by (simp add: try_request_def raise_for_status_def)
  have t1: "try_request (?get 1) = RateLimited 2"
    by (simp add: try_request_def)
  have t2: "try_request (?get 2) = Return (Some \<lparr> p_tickets = [], p_total_pages = 1 \<rparr>)"
    by (simp add: try_request_def raise_for_status_def)
  have h: "(2::nat) < 3 \<and> (\<forall>j<2. \<forall>u. try_request (?get j) \<noteq> Return u)
        \<and> try_request (?get 2) = Return (Some \<lparr> p_tickets = [], p_total_pages = 1 \<rparr>)"
  proof (intro conjI allI impI)
    fix j :: nat and u assume "j < 2"
    then consider "j = 0" | "j = 1" by linarith
    then show "try_request (?get j) \<noteq> Return u"
      by cases (simp_all add: try_request_def raise_for_status_def)
  qed (simp_all add: try_request_def raise_for_status_def)
  have u2: "[0..<2] = [0, Suc 0]" by (simp add: upt_rec)
  from fetch_page_with_retry_three_attempts[of ?get] h
  have "fetch_page_with_retry ?get 3 =
          (Inr (Some \<lparr> p_tickets = [], p_total_pages = 1 \<rparr>),
           concat (map (\<lambda>j. pause j (try_request (?get j))) [0..<2]), Suc 2)"
    by blast
  then show ?thesis
    by (simp add: u2 pause_def try_request_def raise_for_status_def)
qed

text \<open>
  The claim "a retry after 429 does not count against the 3-attempt limit" fails. The
  first two requests are answered with 429 and \<^verbatim>\<open>Retry-After: 2\<close>, the third with 500:
  the function raises after this one error, with sleeps of 2 and 2 seconds; the
  fourth request, which would be answered with 200, is never sent.
\<close>

theorem fetch_page_429_uses_attempts:
  "fetch_page_with_retry
     (\<lambda>k. if k < 2 then Response 429 (HeaderInt 2) NotJson
           else if k = 2 then Response 500 NoHeader NotJson
           else Response 200 NoHeader (Json (Some \<lparr> p_tickets = [], p_total_pages = 1 \<rparr>))) 3
     = (Inl (HTTPStatusError 500), [2, 2], 3)"
  by (simp add: fetch_three try_request_def raise_for_status_def pause_def)

subsection \<open>What a run leaves as it is\<close>

lemma deleted_kept_refl: "deleted_kept ts ts"
  by (simp add: deleted_kept_def)

lemma deleted_kept_trans:
  "deleted_kept ts ts' \<Longrightarrow> deleted_kept ts' ts'' \<Longrightarrow> deleted_kept ts ts''"
  unfolding deleted_kept_def by (meson le_trans less_le_trans)

lemma run_frame_refl: "run_frame d d"
  by (simp add: run_frame_def deleted_kept_refl)

lemma run_frame_trans: "run_frame d d' \<Longrightarrow> run_frame d' d'' \<Longrightarrow> run_frame d d''"
  unfolding run_frame_def using deleted_kept_trans by auto

lemma run_frame_same:
  "ingestion_logs d' = ingestion_logs d \<Longrightarrow> tickets d' = tickets d \<Longrightarrow> run_frame d d'"
  by (simp add: run_frame_def deleted_kept_refl)

lemma update_first_length: "length (update_first P f xs) = length xs"
  by (induction xs) auto

lemma update_first_nth:
  "i < length xs \<Longrightarrow>
   update_first P f xs ! i = xs ! i \<or> update_first P f xs ! i = f (xs ! i)"
proof (induction xs arbitrary: i)
  case Nil
  then show ?case by simp
next
  case (Cons x xs)
  then show ?case by (cases i) auto
qed

lemma apply_set_other: "k \<notin> fst ` set kvs \<Longrightarrow> apply_set kvs d k = d k"
  unfolding apply_set_def by (induction kvs arbitrary: d) auto

lemma ticket_doc_keys:
  "fst ` set (ticket_doc tenant ticket_data created_at updated_at c) =
     {''external_id'', ''tenant_id'', ''source'', ''customer_id'', ''subject'', ''message'',
      ''created_at'', ''updated_at'', ''status'', ''urgency'', ''sentiment'',
      ''requires_action''}"
  by (simp add: ticket_doc_def)

lemma prepare_ticket_no_deleted_at:
  "prepare_ticket parse tenant ticket_data = Inr (set_doc, c) \<Longrightarrow>
   ''deleted_at'' \<notin> fst ` set set_doc"
proof
  assume "prepare_ticket parse tenant ticket_data = Inr (set_doc, c)"
    and "''deleted_at'' \<in> fst ` set set_doc"
  then obtain created_at updated_at where
    "''deleted_at'' \<in> fst ` set (ticket_doc tenant ticket_data created_at updated_at c)"
    by (auto simp: prepare_ticket_def split: sum.splits)
  then show False unfolding ticket_doc_keys by simp
qed

lemma upsert_deleted_kept:
  assumes "''deleted_at'' \<notin> fst ` set set_doc"
  shows "deleted_kept ts (snd (upsert_ticket tenant x set_doc ts))"
proof (cases "find (same_ticket tenant x) ts")
  case None
  then show ?thesis
    by (simp add: upsert_ticket_def deleted_kept_def nth_append)
next
  case (Some t)
  have "(update_first (same_ticket tenant x) (apply_set set_doc) ts ! i) ''deleted_at''
          = (ts ! i) ''deleted_at''" if "i < length ts" for i
    using update_first_nth[OF that, of "same_ticket tenant x" "apply_set set_doc"]
      apply_set_other[OF assms]
    by auto
  with Some show ?thesis
    by (simp add: upsert_ticket_def deleted_kept_def update_first_length)
qed

lemma mark_deleted_kept:
  "deleted_kept (tickets d) (tickets (snd (mark_deleted now tenant ids d)))"
  by (auto simp: mark_deleted_def Let_def fold_record_history_tickets deleted_kept_def
      to_delete_def fld_exists_def)

lemma mark_deleted_logs:
  "ingestion_logs (snd (mark_deleted now tenant ids d)) = ingestion_logs d"
proof -
  have "ingestion_logs (fold (\<lambda>i. record_history now i tenant act chg) xs d0) = ingestion_logs d0"
    for xs d0 act chg
    by (induction xs arbitrary: d0) (auto simp: record_history_def)
  then show ?thesis by (simp add: mark_deleted_def Let_def)
qed

lemma mark_deleted_frame: "run_frame d (snd (mark_deleted now tenant ids d))"
  by (simp add: run_frame_def mark_deleted_kept mark_deleted_logs)

lemma record_history_frame: "run_frame d (record_history now tid tenant act chg d)"
  by (simp add: run_frame_same record_history_def)

lemma sync_ticket_frame:
  "sync_ticket parse now external_ticket tenant d = Inr (r, d') \<Longrightarrow> run_frame d d'"
  by (auto simp: sync_ticket_def Let_def run_frame_refl record_history_frame
      split: option.splits sum.splits bool.splits if_splits)

lemma update_job_frame: "run_frame d (update_job i f d)"
  by (simp add: run_frame_same update_job_def)

lemma acquire_lock_frame: "run_frame d (snd (acquire_lock now resource owner d))"
  by (simp add: run_frame_same acquire_lock_def Let_def)

lemma release_lock_frame: "run_frame d (snd (release_lock resource owner d))"
  by (simp add: run_frame_same release_lock_def Let_def)

lemma refresh_lock_frame: "run_frame d (snd (refresh_lock now resource owner d))"
  by (simp add: run_frame_same refresh_lock_def Let_def)

lemma store_ticket_frame:
  assumes "''deleted_at'' \<notin> fst ` set set_doc"
  shows "run_frame (store w) (store (fst (store_ticket tenant x set_doc c (w, cnt))))"
proof -
  obtain res ts where u: "upsert_ticket tenant x set_doc (tickets (store w)) = (res, ts)"
    by (cases "upsert_ticket tenant x set_doc (tickets (store w))")
  from upsert_deleted_kept[OF assms, of "tickets (store w)" tenant x] u
  have k: "deleted_kept (tickets (store w)) ts" by simp
  show ?thesis
    using k by (simp add: store_ticket_def u Let_def send_notification_def run_frame_def
        record_history_def)
qed

lemma process_ticket_frame:
  "run_frame (store w) (store (fst (process_ticket env tenant ticket_data (w, cnt))))"
proof (cases "sync_ticket (date_parser env) (clock w) ticket_data tenant (store w)")
  case (Inl e)
  then show ?thesis by (simp add: process_ticket_def Let_def run_frame_refl)
next
  case (Inr p)
  obtain r d1 where p: "p = (r, d1)" by (cases p)
  from Inr p have f1: "run_frame (store w) d1" by (auto dest: sync_ticket_frame)
  show ?thesis
  proof (cases "prepare_ticket (date_parser env) tenant ticket_data")
    case (Inl e)
    with Inr p f1 show ?thesis by (simp add: process_ticket_def Let_def)
  next
    case (Inr q)
    obtain set_doc c where q: "q = (set_doc, c)" by (cases q)
    from Inr q have "''deleted_at'' \<notin> fst ` set set_doc"
      by (auto dest: prepare_ticket_no_deleted_at)
    from store_ticket_frame[OF this, of "w\<lparr>store := d1\<rparr>"]
    have "run_frame d1 (store (fst (store_ticket tenant (dict_get ticket_data ''id'') set_doc c
            (w\<lparr>store := d1\<rparr>,
             cnt\<lparr>all_external_ids := all_external_ids cnt @ [dict_get ticket_data ''id'']\<rparr>))))"
      by simp
    with f1 Inr q \<open>sync_ticket (date_parser env) (clock w) ticket_data tenant (store w) = Inr p\<close> p
    show ?thesis
      by (auto simp: process_ticket_def Let_def intro: run_frame_trans)
  qed
qed

lemma fold_process_ticket_frame:
  "run_frame (store w) (store (fst (fold (process_ticket env tenant) tds (w, cnt))))"
proof (induction tds arbitrary: w cnt)
  case Nil
  show ?case by (simp add: run_frame_refl)
next
  case (Cons td tds)
  obtain w1 cnt1 where s: "process_ticket env tenant td (w, cnt) = (w1, cnt1)"
    by (cases "process_ticket env tenant td (w, cnt)")
  from process_ticket_frame[of w env tenant td cnt] s have "run_frame (store w) (store w1)"
    by simp
  with Cons.IH[of w1 cnt1] s show ?case by (auto intro: run_frame_trans)
qed

lemma process_page_frame:
  "run_frame (store w)
     (store (fst (snd (process_page env tenant job_id job_db_id page pd (w, cnt)))))"
proof -
  let ?w1 = "w\<lparr>store := update_job job_db_id
                      (\<lambda>j. j\<lparr>j_total_pages := Some (p_total_pages pd), j_processed_pages := page,
                              j_progress := (if 0 < p_total_pages pd
                                             then progress_of env page (p_total_pages pd)
                                             else 0)\<rparr>)
                      (store w)\<rparr>"
  obtain w2 cnt2 where f: "fold (process_ticket env tenant) (p_tickets pd) (?w1, cnt) = (w2, cnt2)"
    by (cases "fold (process_ticket env tenant) (p_tickets pd) (?w1, cnt)")
  have a: "run_frame (store w) (store ?w1)" by (simp add: update_job_frame)
  from fold_process_ticket_frame[of ?w1 env tenant "p_tickets pd" cnt] f
  have b: "run_frame (store ?w1) (store w2)" by simp
  from a b have c: "run_frame (store w) (store w2)" by (rule run_frame_trans)
  have d: "run_frame (store w)
      (snd (refresh_lock (clock w2) (lock_name tenant) job_id (store w2)))"
    using c refresh_lock_frame by (rule run_frame_trans)
  show ?thesis
    using c d by (simp add: process_page_def Let_def f)
qed

lemma concurrent_cancel_store: "store (concurrent_cancel env job_id w) = store w"
  by (simp add: concurrent_cancel_def split: option.splits)

lemma page_step_frame:
  "run_frame (store w)
     (store (fst (snd (page_step env tenant job_id job_db_id page (w, cnt)))))"
proof -
  let ?w0 = "concurrent_cancel env job_id w"
  have s0: "store ?w0 = store w" by (rule concurrent_cancel_store)
  show ?thesis
  proof (cases "cancelled job_id ?w0")
    case True
    then show ?thesis by (simp add: page_step_def Let_def s0 run_frame_refl)
  next
    case False
    obtain x now' rl' where wa: "wait_and_acquire (clock ?w0) (limiter ?w0) = (x, now', rl')"
      by (cases "wait_and_acquire (clock ?w0) (limiter ?w0)")
    show ?thesis
    proof (cases x)
      case (Some e)
      with False wa show ?thesis by (simp add: page_step_def Let_def s0 run_frame_refl)
    next
      case None
      let ?w1 = "?w0\<lparr>clock := now', limiter := rl'\<rparr>"
      obtain r sleeps n where
        f: "fetch_page_with_retry (\<lambda>k. api env (requests ?w1 + k) tenant page) 3 = (r, sleeps, n)"
        by (cases "fetch_page_with_retry (\<lambda>k. api env (requests ?w1 + k) tenant page) 3")
      let ?w2 = "?w1\<lparr>requests := requests ?w1 + n,
                     clock := clock ?w1 + sum_list (map (\<lambda>s. max 0 (real_of_int s)) sleeps)\<rparr>"
      have s2: "store ?w2 = store w" by (simp add: s0)
      have step: "page_step env tenant job_id job_db_id page (w, cnt) =
          (case r of
             Inl e \<Rightarrow> (Raise e, ?w2, cnt)
           | Inr None \<Rightarrow> (Break, ?w2, cnt)
           | Inr (Some pd) \<Rightarrow> process_page env tenant job_id job_db_id page pd (?w2, cnt))"
        using False wa None f by (simp add: page_step_def Let_def)
      show ?thesis
      proof (cases r)
        case (Inl e)
        then show ?thesis unfolding step by (simp add: s0 run_frame_refl)
      next
        case (Inr v)
        show ?thesis
        proof (cases v)
          case None
          with Inr show ?thesis unfolding step by (simp add: s0 run_frame_refl)
        next
          case (Some pd)
          from process_page_frame[of ?w2 env tenant job_id job_db_id page pd cnt]
          show ?thesis unfolding step Inr Some by (simp add: s0)
        qed
      qed
    qed
  qed
qed

lemma page_loop_frame:
  "run_frame (store w)
     (store (fst (snd (page_loop fuel env tenant job_id job_db_id page (w, cnt)))))"
proof (induction fuel arbitrary: page w cnt)
  case 0
  show ?case by (simp add: run_frame_refl)
next
  case (Suc fuel)
  obtain st w1 cnt1 where s: "page_step env tenant job_id job_db_id page (w, cnt) = (st, w1, cnt1)"
    by (cases "page_step env tenant job_id job_db_id page (w, cnt)")
  from page_step_frame[of w env tenant job_id job_db_id page cnt] s
  have f: "run_frame (store w) (store w1)" by simp
  show ?case
  proof (cases st)
    case Break
    with s f show ?thesis by simp
  next
    case (Raise e)
    with s f show ?thesis by simp
  next
    case (Next page')
    from Suc.IH[of w1 page' cnt1] f
    have "run_frame (store w)
        (store (fst (snd (page_loop fuel env tenant job_id job_db_id page' (w1, cnt1)))))"
      by (rule run_frame_trans[rotated])
    with s Next show ?thesis by simp
  qed
qed

lemma start_job_frame: "run_frame (store w) (store (start_job tenant job_id w))"
  by (simp add: start_job_def run_frame_same)

lemma finally_release_frame: "run_frame (store w) (store (finally_release tenant job_id w))"
  by (simp add: finally_release_def release_lock_frame)

lemma update_job_logs: "ingestion_logs (update_job i f d) = ingestion_logs d"
  by (simp add: update_job_def)

lemma update_job_tickets: "tickets (update_job i f d) = tickets d"
  by (simp add: update_job_def)

lemma fail_run_log:
  "ingestion_logs (store (fail_run tenant job_id job_db_id started_at e (w, cnt))) =
     ingestion_logs (store w) @
       [\<lparr> l_tenant_id = tenant, l_job_id = job_id, l_status = ''failed'', l_error = Some e,
          l_started_at = started_at, l_ended_at = clock w, l_new_ingested = new_ingested cnt,
          l_updated = updated cnt, l_errors = errors cnt \<rparr>]"
  by (simp add: fail_run_def Let_def update_job_logs)

lemma fail_run_tickets:
  "tickets (store (fail_run tenant job_id job_db_id started_at e (w, cnt))) = tickets (store w)"
  by (simp add: fail_run_def Let_def update_job_tickets)

lemma finish_run_raises:
  "finish_run env tenant job_id job_db_id started_at (w, cnt) = (Inl e, w') \<Longrightarrow> w' = w"
  by (auto simp: finish_run_def Let_def split: sum.splits)

lemma finish_run_log:
  assumes "finish_run env tenant job_id job_db_id started_at (w, cnt) = (Inr r, w')"
  shows "\<exists>entry. ingestion_logs (store w') = ingestion_logs (store w) @ [entry]
           \<and> l_tenant_id entry = tenant \<and> l_job_id entry = job_id
           \<and> l_status entry = (if 0 < errors cnt then ''PARTIAL_SUCCESS'' else ''SUCCESS'')
           \<and> l_error entry = None
           \<and> l_new_ingested entry = new_ingested cnt \<and> l_updated entry = updated cnt
           \<and> l_errors entry = errors cnt"
    and "r_new_ingested r = new_ingested cnt \<and> r_updated r = updated cnt
           \<and> r_errors r = errors cnt \<and> r_job_id r = JobId job_id
           \<and> (r_status r = ''cancelled'' \<or> r_status r = ''completed'')"
    and "deleted_kept (tickets (store w)) (tickets (store w'))"
proof -
  from assms obtain deleted_ids where
    d: "detect_deleted_tickets tenant (all_external_ids cnt) (store w) = Inr deleted_ids"
    by (auto simp: finish_run_def split: sum.splits)
  define d1 where "d1 = (if deleted_ids \<noteq> []
                          then snd (mark_deleted (clock w) tenant deleted_ids (store w))
                          else store w)"
  have f1: "run_frame (store w) d1"
    by (simp add: d1_def mark_deleted_frame run_frame_refl)
  define w1 where "w1 = concurrent_cancel env job_id (w\<lparr>store := d1\<rparr>)"
  have s1: "store w1 = d1" by (simp add: w1_def concurrent_cancel_store)
  from assms d have w': "w' = w1\<lparr>store :=
      (update_job job_db_id
         (\<lambda>j. j\<lparr>j_status := (if cancelled job_id w1 then ''cancelled'' else ''completed''),
                 j_ended_at := Some (clock w1)\<rparr>) (store w1))
      \<lparr>ingestion_logs := ingestion_logs (update_job job_db_id
         (\<lambda>j. j\<lparr>j_status := (if cancelled job_id w1 then ''cancelled'' else ''completed''),
                 j_ended_at := Some (clock w1)\<rparr>) (store w1)) @
         [\<lparr> l_tenant_id = tenant, l_job_id = job_id,
            l_status = (if 0 < errors cnt then ''PARTIAL_SUCCESS''
                        else if (if cancelled job_id w1 then ''cancelled'' else ''completed'')
                                = ''failed'' then ''FAILED''
                        else ''SUCCESS''),
            l_error = None, l_started_at = started_at,
            l_ended_at = clock w1, l_new_ingested = new_ingested cnt,
            l_updated = updated cnt, l_errors = errors cnt \<rparr>]\<rparr>\<rparr>"
    and r: "r = \<lparr> r_status = (if cancelled job_id w1 then ''cancelled'' else ''completed''),
                 r_job_id = JobId job_id,
                 r_new_ingested = new_ingested cnt, r_updated = updated cnt,
                 r_errors = errors cnt \<rparr>"
    unfolding finish_run_def w1_def d1_def by (simp_all add: Let_def)
  from f1 have l1: "ingestion_logs d1 = ingestion_logs (store w)"
    and k1: "deleted_kept (tickets (store w)) (tickets d1)"
    by (simp_all add: run_frame_def)
  show "\<exists>entry. ingestion_logs (store w') = ingestion_logs (store w) @ [entry]
           \<and> l_tenant_id entry = tenant \<and> l_job_id entry = job_id
           \<and> l_status entry = (if 0 < errors cnt then ''PARTIAL_SUCCESS'' else ''SUCCESS'')
           \<and> l_error entry = None
           \<and> l_new_ingested entry = new_ingested cnt \<and> l_updated entry = updated cnt
           \<and> l_errors entry = errors cnt"
    unfolding w' by (simp add: update_job_logs s1 l1)
  show "r_new_ingested r = new_ingested cnt \<and> r_updated r = updated cnt
           \<and> r_errors r = errors cnt \<and> r_job_id r = JobId job_id
           \<and> (r_status r = ''cancelled'' \<or> r_status r = ''completed'')"
    unfolding r by simp
  show "deleted_kept (tickets (store w)) (tickets (store w'))"
    unfolding w' using k1 by (simp add: update_job_tickets s1)
qed

lemma run_job_effect:
  assumes "run_job fuel env tenant job_id w = (Some res, w')"
    and "cnt = snd (snd (page_loop fuel env tenant job_id (length (ingestion_jobs (store w))) 1
                          (start_job tenant job_id w, zero_counters)))"
  shows "\<exists>entry. ingestion_logs (store w') = ingestion_logs (store w) @ [entry]
           \<and> l_tenant_id entry = tenant \<and> l_job_id entry = job_id
           \<and> l_new_ingested entry = new_ingested cnt \<and> l_updated entry = updated cnt
           \<and> l_errors entry = errors cnt
           \<and> (case res of
                 Inr r \<Rightarrow>
                   l_status entry = (if 0 < errors cnt then ''PARTIAL_SUCCESS'' else ''SUCCESS'')
                   \<and> l_error entry = None
                   \<and> r_new_ingested r = new_ingested cnt \<and> r_updated r = updated cnt
                   \<and> r_errors r = errors cnt \<and> r_status r \<noteq> ''already_running''
               | Inl e \<Rightarrow> l_error entry = Some e)"
    and "deleted_kept (tickets (store w)) (tickets (store w'))"
proof -
  let ?id = "length (ingestion_jobs (store w))"
  obtain x w2 c where
    pl: "page_loop fuel env tenant job_id ?id 1 (start_job tenant job_id w, zero_counters) = (x, w2, c)"
    by (cases "page_loop fuel env tenant job_id ?id 1 (start_job tenant job_id w, zero_counters)")
  with assms(2) have c: "c = cnt" by simp
  from page_loop_frame[of "start_job tenant job_id w" fuel env tenant job_id ?id 1 zero_counters] pl
  have "run_frame (store (start_job tenant job_id w)) (store w2)" by simp
  with start_job_frame[of w tenant job_id] have f2: "run_frame (store w) (store w2)"
    by (rule run_frame_trans)
  then have l2: "ingestion_logs (store w2) = ingestion_logs (store w)"
    and k2: "deleted_kept (tickets (store w)) (tickets (store w2))"
    by (simp_all add: run_frame_def)
  have rel: "ingestion_logs (store (finally_release tenant job_id v)) = ingestion_logs (store v)"
    "tickets (store (finally_release tenant job_id v)) = tickets (store v)" for v
    by (simp_all add: finally_release_def release_lock_def Let_def)
  let ?goal1 = "\<exists>entry. ingestion_logs (store w') = ingestion_logs (store w) @ [entry]
           \<and> l_tenant_id entry = tenant \<and> l_job_id entry = job_id
           \<and> l_new_ingested entry = new_ingested cnt \<and> l_updated entry = updated cnt
           \<and> l_errors entry = errors cnt
           \<and> (case res of
                 Inr r \<Rightarrow>
                   l_status entry = (if 0 < errors cnt then ''PARTIAL_SUCCESS'' else ''SUCCESS'')
                   \<and> l_error entry = None
                   \<and> r_new_ingested r = new_ingested cnt \<and> r_updated r = updated cnt
                   \<and> r_errors r = errors cnt \<and> r_status r \<noteq> ''already_running''
               | Inl e \<Rightarrow> l_error entry = Some e)"
  have "?goal1 \<and> deleted_kept (tickets (store w)) (tickets (store w'))"
  proof (cases x)
    case OutOfFuel
    with assms(1) pl show ?thesis by (simp add: run_job_def Let_def)
  next
    case (Raised e)
    with assms(1) pl have res: "res = Inl e"
      and w': "w' = finally_release tenant job_id
                      (fail_run tenant job_id ?id (clock w) e (w2, c))"
      by (simp_all add: run_job_def Let_def)
    show ?thesis
      unfolding res w' using k2 by (simp add: rel fail_run_log fail_run_tickets l2 c)
  next
    case Finished
    obtain y w3 where fr: "finish_run env tenant job_id ?id (clock w) (w2, c) = (y, w3)"
      by (cases "finish_run env tenant job_id ?id (clock w) (w2, c)")
    show ?thesis
    proof (cases y)
      case (Inl e)
      with fr have w3: "w3 = w2" by (auto dest: finish_run_raises)
      from Finished assms(1) pl fr Inl have res: "res = Inl e"
        and w': "w' = finally_release tenant job_id
                        (fail_run tenant job_id ?id (clock w) e (w3, c))"
        by (simp_all add: run_job_def Let_def)
      show ?thesis
        unfolding res w' w3 using k2 by (simp add: rel fail_run_log fail_run_tickets l2 c)
    next
      case (Inr r)
      from Finished assms(1) pl fr Inr have res: "res = Inr r"
        and w': "w' = finally_release tenant job_id w3"
        by (simp_all add: run_job_def Let_def)
      from fr Inr have fr': "finish_run env tenant job_id ?id (clock w) (w2, c) = (Inr r, w3)"
        by simp
      from finish_run_log(1)[OF fr'] obtain entry where
        e: "ingestion_logs (store w3) = ingestion_logs (store w2) @ [entry]"
          "l_tenant_id entry = tenant" "l_job_id entry = job_id"
          "l_status entry = (if 0 < errors c then ''PARTIAL_SUCCESS'' else ''SUCCESS'')"
          "l_error entry = None" "l_new_ingested entry = new_ingested c"
          "l_updated entry = updated c" "l_errors entry = errors c"
        by blast
      from finish_run_log(2)[OF fr'] have rr: "r_new_ingested r = new_ingested c"
        "r_updated r = updated c" "r_errors r = errors c" "r_status r \<noteq> ''already_running''"
        by auto
      from finish_run_log(3)[OF fr'] k2
      have k3: "deleted_kept (tickets (store w)) (tickets (store w3))"
        by (rule deleted_kept_trans[rotated])
      show ?thesis
        unfolding res w' using e rr k3 by (simp add: rel l2 c)
    qed
  qed
  then show ?goal1 and "deleted_kept (tickets (store w)) (tickets (store w'))" by blast+
qed

lemma run_job_out_of_fuel_kept:
  "deleted_kept (tickets (store w)) (tickets (store (snd (run_job fuel env tenant job_id w))))"
proof (cases "fst (run_job fuel env tenant job_id w)")
  case None
  let ?id = "length (ingestion_jobs (store w))"
  obtain x w2 c where
    pl: "page_loop fuel env tenant job_id ?id 1 (start_job tenant job_id w, zero_counters) = (x, w2, c)"
    by (cases "page_loop fuel env tenant job_id ?id 1 (start_job tenant job_id w, zero_counters)")
  from page_loop_frame[of "start_job tenant job_id w" fuel env tenant job_id ?id 1 zero_counters] pl
  have "run_frame (store (start_job tenant job_id w)) (store w2)" by simp
  with start_job_frame[of w tenant job_id] have f2: "run_frame (store w) (store w2)"
    by (rule run_frame_trans)
  from None pl have "snd (run_job fuel env tenant job_id w) = w2"
    by (auto simp: run_job_def Let_def split: loop_exit.splits prod.splits sum.splits)
  with f2 show ?thesis by (simp add: run_frame_def)
next
  case (Some res)
  then have "run_job fuel env tenant job_id w = (Some res, snd (run_job fuel env tenant job_id w))"
    by (metis prod.collapse)
  from run_job_effect(2)[OF this refl] show ?thesis .
qed

lemma acquire_lock_jobs:
  "ingestion_jobs (snd (acquire_lock now resource owner d)) = ingestion_jobs d"
  by (simp add: acquire_lock_def Let_def)

lemma run_ingestion_kept:
  "deleted_kept (tickets (store w)) (tickets (store (snd (run_ingestion fuel env tenant w))))"
proof -
  obtain b d1 where a: "acquire_lock (clock w) (lock_name tenant) (uuid4 env) (store w) = (b, d1)"
    by (cases "acquire_lock (clock w) (lock_name tenant) (uuid4 env) (store w)")
  from acquire_lock_frame[of "store w" "clock w" "lock_name tenant" "uuid4 env"] a
  have k1: "deleted_kept (tickets (store w)) (tickets d1)" by (simp add: run_frame_def)
  from run_job_out_of_fuel_kept[of "w\<lparr>store := d1\<rparr>" fuel env tenant "uuid4 env"] k1
  have "deleted_kept (tickets (store w))
          (tickets (store (snd (run_job fuel env tenant (uuid4 env) (w\<lparr>store := d1\<rparr>)))))"
    by (auto intro: deleted_kept_trans)
  with k1 show ?thesis
    by (simp add: run_ingestion_def Let_def a split: option.splits)
qed

lemma apply_op_kept: "deleted_kept (tickets (store w)) (tickets (store (apply_op op w)))"
proof (cases op)
  case (RunIngestion fuel env tenant)
  then show ?thesis by (simp add: run_ingestion_kept)
next
  case (SyncTicket parse external_ticket tenant)
  show ?thesis
  proof (cases "sync_ticket parse (clock w) external_ticket tenant (store w)")
    case (Inl e)
    with SyncTicket show ?thesis by (simp add: deleted_kept_refl)
  next
    case (Inr p)
    obtain r d where p: "p = (r, d)" by (cases p)
    with Inr have "run_frame (store w) d" by (auto dest: sync_ticket_frame)
    with SyncTicket Inr p show ?thesis by (simp add: run_frame_def)
  qed
next
  case (MarkDeleted tenant ids)
  then show ?thesis by (simp add: mark_deleted_kept)
next
  case (Elapse secs)
  then show ?thesis by (simp add: deleted_kept_refl)
qed

lemma fold_apply_op_kept:
  "deleted_kept (tickets (store w)) (tickets (store (fold apply_op ops w)))"
proof (induction ops arbitrary: w)
  case Nil
  show ?case by (simp add: deleted_kept_refl)
next
  case (Cons op ops)
  from apply_op_kept[of w op] Cons.IH[of "apply_op op w"] show ?case
    by (auto intro: deleted_kept_trans)
qed

lemma mark_deleted_untouched:
  "i < length (tickets d) \<Longrightarrow> (tickets d ! i) ''deleted_at'' = Some v \<Longrightarrow>
   tickets (snd (mark_deleted now tenant ids d)) ! i = tickets d ! i"
  by (simp add: mark_deleted_def Let_def fold_record_history_tickets to_delete_def fld_exists_def)

subsection \<open>Runs of the examples\<close>

lemma wait_and_acquire_free:
  "int (length (evict now (window_seconds rl) (request_times rl))) < requests_per_minute rl \<Longrightarrow>
   wait_and_acquire now rl =
     (None, now, rl\<lparr>request_times := evict now (window_seconds rl) (request_times rl) @ [now]\<rparr>)"
  by (subst wait_and_acquire.simps) (simp add: acquire_def Let_def)

lemma fetch_first_ok:
  "try_request (get 0) = Return v \<Longrightarrow> fetch_page_with_retry get 3 = (Inr v, [], 1)"
  by (simp add: fetch_three)

lemma page_step_one_empty_page:
  assumes "cancellation_flags w job_id = Some False" and "limiter w = get_rate_limiter"
  shows "page_step (one_page_env []) tenant job_id job_db_id 1 (w, cnt) =
     (Break,
      w\<lparr>limiter := get_rate_limiter\<lparr>request_times := [clock w]\<rparr>,
        requests := requests w + 1,
        store := update_job job_db_id
                   (\<lambda>j. j\<lparr>j_total_pages := Some 1, j_processed_pages := 1, j_progress := 100\<rparr>)
                   (store w)\<rparr>,
      cnt)"
proof -
  have c: "concurrent_cancel (one_page_env []) job_id w = w"
    by (simp add: concurrent_cancel_def one_page_env_def)
  have n: "\<not> cancelled job_id w" using assms(1) by (simp add: cancelled_def)
  have wa: "wait_and_acquire (clock w) (limiter w) =
      (None, clock w, get_rate_limiter\<lparr>request_times := [clock w]\<rparr>)"
    unfolding assms(2)
    by (subst wait_and_acquire_free) (simp_all add: get_rate_limiter_def RateLimiter_def)
  have f: "fetch_page_with_retry (\<lambda>k. api (one_page_env []) (r + k) tenant 1) 3 =
      (Inr (Some \<lparr> p_tickets = [], p_total_pages = 1 \<rparr>), [], 1)" for r
    by (rule fetch_first_ok) (simp add: one_page_env_def try_request_def raise_for_status_def)
  have p: "progress_of (one_page_env []) 1 1 = 100"
    by (simp add: one_page_env_def)
  show ?thesis
    by (simp add: page_step_def Let_def c n wa f p process_page_def)
qed

lemma page_step_down:
  assumes "cancellation_flags w job_id = Some False" and "limiter w = get_rate_limiter"
  shows "page_step down_env tenant job_id job_db_id 1 (w, cnt) =
     (Raise ConnectError,
      w\<lparr>limiter := get_rate_limiter\<lparr>request_times := [clock w]\<rparr>,
        requests := requests w + 3, clock := clock w + 3\<rparr>,
      cnt)"
proof -
  have c: "concurrent_cancel down_env job_id w = w"
    by (simp add: concurrent_cancel_def down_env_def)
  have n: "\<not> cancelled job_id w" using assms(1) by (simp add: cancelled_def)
  have wa: "wait_and_acquire (clock w) (limiter w) =
      (None, clock w, get_rate_limiter\<lparr>request_times := [clock w]\<rparr>)"
    unfolding assms(2)
    by (subst wait_and_acquire_free) (simp_all add: get_rate_limiter_def RateLimiter_def)
  have f: "fetch_page_with_retry (\<lambda>k. api down_env (r + k) tenant 1) 3 =
      (Inl ConnectError, [1, 2], 3)" for r
    by (simp add: fetch_three down_env_def try_request_def pause_def)
  show ?thesis
    by (simp add: page_step_def Let_def c n wa f)
qed

lemma run_job_one_empty_page:
  assumes "limiter w = get_rate_limiter" and "tickets (store w) = []"
  shows "fst (run_job (Suc n) (one_page_env []) tenant job_id w) =
           Some (Inr \<lparr> r_status = ''completed'', r_job_id = JobId job_id,
                        r_new_ingested = 0, r_updated = 0, r_errors = 0 \<rparr>)"
    and "map j_job_id (ingestion_jobs (store (snd (run_job (Suc n) (one_page_env []) tenant job_id w))))
           = map j_job_id (ingestion_jobs (store w)) @ [job_id]"
    and "requests (snd (run_job (Suc n) (one_page_env []) tenant job_id w)) = requests w + 1"
    and "map l_status (ingestion_logs (store (snd (run_job (Suc n) (one_page_env []) tenant job_id w))))
           = map l_status (ingestion_logs (store w)) @ [''SUCCESS'']"
proof -
  let ?w1 = "start_job tenant job_id w"
  have a: "cancellation_flags ?w1 job_id = Some False" "limiter ?w1 = get_rate_limiter"
    using assms by (simp_all add: start_job_def)
  note st = page_step_one_empty_page[OF a, of tenant "length (ingestion_jobs (store w))" zero_counters]
  have pl: "page_loop (Suc n) (one_page_env []) tenant job_id (length (ingestion_jobs (store w))) 1
              (?w1, zero_counters) =
            (Finished,
             ?w1\<lparr>limiter := get_rate_limiter\<lparr>request_times := [clock ?w1]\<rparr>,
                  requests := requests ?w1 + 1,
                  store := update_job (length (ingestion_jobs (store w)))
                   (\<lambda>j. j\<lparr>j_total_pages := Some 1, j_processed_pages := 1, j_progress := 100\<rparr>)
                   (store ?w1)\<rparr>,
             zero_counters)"
    by (simp add: st)
  have cc: "concurrent_cancel (one_page_env []) job_id v = v" for v
    by (simp add: concurrent_cancel_def one_page_env_def)
  have dd: "detect_deleted_tickets tenant [] d = Inr []" if "tickets d = []" for d
    using that by (simp add: detect_deleted_tickets_def)
  show "fst (run_job (Suc n) (one_page_env []) tenant job_id w) =
           Some (Inr \<lparr> r_status = ''completed'', r_job_id = JobId job_id,
                        r_new_ingested = 0, r_updated = 0, r_errors = 0 \<rparr>)"
    unfolding run_job_def Let_def pl
    using assms(2)
    by (simp add: finish_run_def Let_def cc dd update_job_tickets start_job_def zero_counters_def
        cancelled_def)
  show "map j_job_id (ingestion_jobs (store (snd (run_job (Suc n) (one_page_env []) tenant job_id w))))
           = map j_job_id (ingestion_jobs (store w)) @ [job_id]"
    unfolding run_job_def Let_def pl
    using assms(2)
    by (simp add: finish_run_def Let_def cc dd update_job_tickets start_job_def zero_counters_def
        cancelled_def finally_release_def release_lock_def update_job_def nth_append map_update)
  show "requests (snd (run_job (Suc n) (one_page_env []) tenant job_id w)) = requests w + 1"
    unfolding run_job_def Let_def pl
    using assms(2)
    by (simp add: finish_run_def Let_def cc dd update_job_tickets start_job_def zero_counters_def
        cancelled_def finally_release_def)
  show "map l_status (ingestion_logs (store (snd (run_job (Suc n) (one_page_env []) tenant job_id w))))
           = map l_status (ingestion_logs (store w)) @ [''SUCCESS'']"
    unfolding run_job_def Let_def pl
    using assms(2)
    by (simp add: finish_run_def Let_def cc dd update_job_tickets start_job_def zero_counters_def
        cancelled_def finally_release_def release_lock_def update_job_def)
qed

lemma run_job_down:
  assumes "limiter w = get_rate_limiter"
  shows "fst (run_job (Suc n) down_env tenant job_id w) = Some (Inl ConnectError)"
    and "map l_status (ingestion_logs (store (snd (run_job (Suc n) down_env tenant job_id w))))
           = map l_status (ingestion_logs (store w)) @ [''failed'']"
proof -
  let ?w1 = "start_job tenant job_id w"
  have a: "cancellation_flags ?w1 job_id = Some False" "limiter ?w1 = get_rate_limiter"
    using assms by (simp_all add: start_job_def)
  note st = page_step_down[OF a, of tenant "length (ingestion_jobs (store w))" zero_counters]
  have pl: "page_loop (Suc n) down_env tenant job_id (length (ingestion_jobs (store w))) 1
              (?w1, zero_counters) =
            (Raised ConnectError,
             ?w1\<lparr>limiter := get_rate_limiter\<lparr>request_times := [clock ?w1]\<rparr>,
                  requests := requests ?w1 + 3, clock := clock ?w1 + 3\<rparr>,
             zero_counters)"
    by (simp add: st)
  show "fst (run_job (Suc n) down_env tenant job_id w) = Some (Inl ConnectError)"
    unfolding run_job_def Let_def pl by simp
  show "map l_status (ingestion_logs (store (snd (run_job (Suc n) down_env tenant job_id w))))
           = map l_status (ingestion_logs (store w)) @ [''failed'']"
    unfolding run_job_def Let_def pl
    by (simp add: fail_run_def Let_def finally_release_def release_lock_def update_job_def
        start_job_def)
qed

subsection \<open>Properties of the ingestion coordinator\<close>

lemma acquire_lock_logs:
  "ingestion_logs (snd (acquire_lock now resource owner d)) = ingestion_logs d"
  by (simp add: acquire_lock_def Let_def)

lemma acquire_lock_held:
  "acquire_lock 1 (lock_name ''T1'') ''job-B'' (d\<lparr>distributed_locks := [lock_of_job_A]\<rparr>) =
     (False, d\<lparr>distributed_locks := [lock_of_job_A]\<rparr>)"
  by (simp add: acquire_lock_def Let_def lock_name_def lock_of_job_A_def ms_def)

lemma acquire_lock_free:
  "fst (acquire_lock 1 resource owner empty_db) = True"
  "tickets (snd (acquire_lock 1 resource owner empty_db)) = []"
  "ingestion_jobs (snd (acquire_lock 1 resource owner empty_db)) = []"
  by (simp_all add: acquire_lock_def Let_def empty_db_def)

text \<open>
  C1 fails on the code. The lock of tenant T1 is held by another job and has not
  expired, and the store has no running job of the tenant (the holder has acquired the
  lock and not yet inserted its job document). \<open>acquire_lock\<close> answers false, the search
  for a running job finds none, and the call goes on: it inserts its own job, sends a
  request for page 1 and returns "completed".
\<close>

theorem run_ingestion_without_lock:
  "acquire_lock 1 (lock_name ''T1'') ''job-B'' (empty_db\<lparr>distributed_locks := [lock_of_job_A]\<rparr>)
     = (False, empty_db\<lparr>distributed_locks := [lock_of_job_A]\<rparr>)
   \<and> fst (run_ingestion 5 (one_page_env []) ''T1''
            (idle_world (empty_db\<lparr>distributed_locks := [lock_of_job_A]\<rparr>)))
     = Some (Inr \<lparr> r_status = ''completed'', r_job_id = JobId ''job-B'',
                  r_new_ingested = 0, r_updated = 0, r_errors = 0 \<rparr>)
   \<and> map j_job_id (ingestion_jobs (store (snd (run_ingestion 5 (one_page_env []) ''T1''
            (idle_world (empty_db\<lparr>distributed_locks := [lock_of_job_A]\<rparr>))))))
     = [''job-B'']
   \<and> requests (snd (run_ingestion 5 (one_page_env []) ''T1''
            (idle_world (empty_db\<lparr>distributed_locks := [lock_of_job_A]\<rparr>)))) = 1"
proof -
  let ?d = "empty_db\<lparr>distributed_locks := [lock_of_job_A]\<rparr>"
  have five: "(5::nat) = Suc 4" by simp
  have u: "uuid4 (one_page_env []) = ''job-B''" by (simp add: one_page_env_def)
  have al: "acquire_lock (clock (idle_world ?d)) (lock_name ''T1'') ''job-B'' (store (idle_world ?d))
      = (False, ?d)"
    by (simp add: idle_world_def acquire_lock_held)
  have ej: "ingestion_jobs empty_db = []" by (simp add: empty_db_def)
  have sw: "(idle_world ?d)\<lparr>store := ?d\<rparr> = idle_world ?d"
    by (simp add: idle_world_def)
  have g: "run_ingestion 5 (one_page_env []) ''T1'' (idle_world ?d) =
      run_job 5 (one_page_env []) ''T1'' ''job-B'' (idle_world ?d)"
    unfolding run_ingestion_def Let_def u al by (simp add: ej sw)
  have l: "limiter (idle_world ?d) = get_rate_limiter" "tickets (store (idle_world ?d)) = []"
    "ingestion_jobs (store (idle_world ?d)) = []" "requests (idle_world ?d) = 0"
    by (simp_all add: idle_world_def empty_db_def)
  show ?thesis
    using run_job_one_empty_page[OF l(1,2), of 4 "''T1''" "''job-B''"] acquire_lock_held[of empty_db]
    by (simp add: l g)
qed

lemma run_ingestion_log_effect:
  assumes "run_ingestion fuel env tenant w = (Some res, w')"
  shows "((\<exists>r. res = Inr r \<and> r_status r = ''already_running'') \<longrightarrow>
            ingestion_logs (store w') = ingestion_logs (store w))
       \<and> (\<not> (\<exists>r. res = Inr r \<and> r_status r = ''already_running'') \<longrightarrow>
            (\<exists>entry. ingestion_logs (store w') = ingestion_logs (store w) @ [entry]
               \<and> l_tenant_id entry = tenant \<and> l_job_id entry = uuid4 env
               \<and> l_new_ingested entry = new_ingested (counters_of_run fuel env tenant w)
               \<and> l_updated entry = updated (counters_of_run fuel env tenant w)
               \<and> l_errors entry = errors (counters_of_run fuel env tenant w)
               \<and> (case res of
                     Inr r \<Rightarrow>
                       l_status entry = (if 0 < r_errors r then ''PARTIAL_SUCCESS'' else ''SUCCESS'')
                       \<and> l_error entry = None
                       \<and> r_new_ingested r = l_new_ingested entry
                       \<and> r_updated r = l_updated entry
                       \<and> r_errors r = l_errors entry
                   | Inl e \<Rightarrow> l_error entry = Some e)))"
proof -
  obtain b d1 where a: "acquire_lock (clock w) (lock_name tenant) (uuid4 env) (store w) = (b, d1)"
    by (cases "acquire_lock (clock w) (lock_name tenant) (uuid4 env) (store w)")
  from acquire_lock_logs[of "clock w" "lock_name tenant" "uuid4 env" "store w"] a
  have l1: "ingestion_logs d1 = ingestion_logs (store w)" by simp
  let ?gate = "if b then None
               else first_index (\<lambda>j. j_tenant_id j = tenant \<and> j_status j = ''running'')
                      (ingestion_jobs d1)"
  show ?thesis
  proof (cases ?gate)
    case (Some i)
    with assms a have "res = Inr \<lparr> r_status = ''already_running'', r_job_id = DbId i,
                            r_new_ingested = 0, r_updated = 0, r_errors = 0 \<rparr>"
      and "w' = w\<lparr>store := d1\<rparr>"
      by (simp_all add: run_ingestion_def Let_def)
    then show ?thesis by (simp add: l1)
  next
    case None
    with assms a have rj: "run_job fuel env tenant (uuid4 env) (w\<lparr>store := d1\<rparr>) = (Some res, w')"
      by (simp add: run_ingestion_def Let_def)
    have cnt: "counters_of_run fuel env tenant w =
        snd (snd (page_loop fuel env tenant (uuid4 env)
                    (length (ingestion_jobs (store (w\<lparr>store := d1\<rparr>)))) 1
                    (start_job tenant (uuid4 env) (w\<lparr>store := d1\<rparr>), zero_counters)))"
      by (simp add: counters_of_run_def Let_def a)
    from run_job_effect(1)[OF rj cnt] obtain entry where
      e: "ingestion_logs (store w') = ingestion_logs (store (w\<lparr>store := d1\<rparr>)) @ [entry]"
        "l_tenant_id entry = tenant" "l_job_id entry = uuid4 env"
        "l_new_ingested entry = new_ingested (counters_of_run fuel env tenant w)"
        "l_updated entry = updated (counters_of_run fuel env tenant w)"
        "l_errors entry = errors (counters_of_run fuel env tenant w)"
        "(case res of
            Inr r \<Rightarrow>
              l_status entry = (if 0 < errors (counters_of_run fuel env tenant w)
                                then ''PARTIAL_SUCCESS'' else ''SUCCESS'')
              \<and> l_error entry = None
              \<and> r_new_ingested r = new_ingested (counters_of_run fuel env tenant w)
              \<and> r_updated r = updated (counters_of_run fuel env tenant w)
              \<and> r_errors r = errors (counters_of_run fuel env tenant w)
              \<and> r_status r \<noteq> ''already_running''
          | Inl e \<Rightarrow> l_error entry = Some e)"
      by blast
    from e(7) have na: "\<not> (\<exists>r. res = Inr r \<and> r_status r = ''already_running'')"
      by (auto split: sum.splits)
    from e(7) have c: "(case res of
                     Inr r \<Rightarrow>
                       l_status entry = (if 0 < r_errors r then ''PARTIAL_SUCCESS'' else ''SUCCESS'')
                       \<and> l_error entry = None
                       \<and> r_new_ingested r = l_new_ingested entry
                       \<and> r_updated r = l_updated entry
                       \<and> r_errors r = l_errors entry
                   | Inl e \<Rightarrow> l_error entry = Some e)"
      by (auto simp: e(4,5,6) split: sum.splits)
    from e(1) have "ingestion_logs (store w') = ingestion_logs (store w) @ [entry]"
      by (simp add: l1)
    with e(2-6) c na show ?thesis by blast
  qed
qed

lemma run_ingestion_acquired:
  "fst (acquire_lock (clock w) (lock_name tenant) (uuid4 env) (store w)) \<Longrightarrow>
   run_ingestion fuel env tenant w =
     run_job fuel env tenant (uuid4 env)
       (w\<lparr>store := snd (acquire_lock (clock w) (lock_name tenant) (uuid4 env) (store w))\<rparr>)"
  by (cases "acquire_lock (clock w) (lock_name tenant) (uuid4 env) (store w)")
    (simp add: run_ingestion_def Let_def)

lemma run_idle_one_empty_page:
  "fst (run_ingestion 5 (one_page_env []) ''T1'' (idle_world empty_db)) =
     Some (Inr \<lparr> r_status = ''completed'', r_job_id = JobId ''job-B'',
                  r_new_ingested = 0, r_updated = 0, r_errors = 0 \<rparr>)"
proof -
  let ?w = "idle_world empty_db"
  let ?d1 = "snd (acquire_lock (clock ?w) (lock_name ''T1'') (uuid4 (one_page_env [])) (store ?w))"
  have a: "fst (acquire_lock (clock ?w) (lock_name ''T1'') (uuid4 (one_page_env [])) (store ?w))"
    by (simp add: idle_world_def acquire_lock_free)
  have l: "limiter (?w\<lparr>store := ?d1\<rparr>) = get_rate_limiter" "tickets (store (?w\<lparr>store := ?d1\<rparr>)) = []"
    by (simp_all add: idle_world_def acquire_lock_free)
  have five: "(5::nat) = Suc 4" by simp
  have u: "uuid4 (one_page_env []) = ''job-B''" by (simp add: one_page_env_def)
  show ?thesis
    unfolding run_ingestion_acquired[OF a]
    using run_job_one_empty_page(1)[OF l, of 4 "''T1''" "uuid4 (one_page_env [])"]
    by (simp add: u)
qed

lemma run_idle_down:
  "fst (run_ingestion 5 down_env ''T1'' (idle_world empty_db)) = Some (Inl ConnectError)"
  "map l_status (ingestion_logs (store (snd (run_ingestion 5 down_env ''T1''
      (idle_world empty_db))))) = [''failed'']"
proof -
  let ?w = "idle_world empty_db"
  let ?d1 = "snd (acquire_lock (clock ?w) (lock_name ''T1'') (uuid4 down_env) (store ?w))"
  have a: "fst (acquire_lock (clock ?w) (lock_name ''T1'') (uuid4 down_env) (store ?w))"
    by (simp add: idle_world_def acquire_lock_free)
  have l: "limiter (?w\<lparr>store := ?d1\<rparr>) = get_rate_limiter"
    by (simp add: idle_world_def)
  have lg: "ingestion_logs ?d1 = []"
    by (simp add: acquire_lock_logs idle_world_def empty_db_def)
  show "fst (run_ingestion 5 down_env ''T1'' (idle_world empty_db)) = Some (Inl ConnectError)"
    unfolding run_ingestion_acquired[OF a]
    using run_job_down(1)[OF l, of 4 "''T1''" "uuid4 down_env"] by simp
  show "map l_status (ingestion_logs (store (snd (run_ingestion 5 down_env ''T1''
      (idle_world empty_db))))) = [''failed'']"
    unfolding run_ingestion_acquired[OF a]
    using run_job_down(2)[OF l, of 4 "''T1''" "uuid4 down_env"] by (simp add: lg)
qed

lemma try_request_return: "try_request r = Return v \<Longrightarrow> \<exists>s h. r = Response s h (Json v)"
  by (auto simp: try_request_def split: http_result.splits retry_after.splits body.splits
      if_splits)

lemma fetch_returns_page:
  assumes "fetch_page_with_retry get 3 = (Inr (Some pd), sl, n)"
  shows "\<exists>k. try_request (get k) = Return (Some pd)"
  using assms unfolding fetch_three
  by (auto split: try_outcome.splits)

lemma process_page_next:
  "process_page env tenant job_id job_db_id page pd (w, cnt) = (Next p', w', c') \<Longrightarrow>
   p' = page + 1 \<and> page < p_total_pages pd"
  by (auto simp: process_page_def Let_def split: prod.splits if_splits)

lemma page_step_next:
  assumes "page_step env tenant job_id job_db_id page (w, cnt) = (Next p', w', c')"
  shows "p' = page + 1 \<and>
         (\<exists>k s h pd. api env k tenant page = Response s h (Json (Some pd)) \<and> page < p_total_pages pd)"
proof -
  from assms obtain w2 pd r sl n where
    f: "fetch_page_with_retry (\<lambda>k. api env (r + k) tenant page) 3 = (Inr (Some pd), sl, n)"
    and pp: "process_page env tenant job_id job_db_id page pd (w2, cnt) = (Next p', w', c')"
    by (auto simp: page_step_def Let_def split: if_splits prod.splits option.splits sum.splits)
  from fetch_returns_page[OF f] obtain k where "try_request (api env (r + k) tenant page) = Return (Some pd)"
    by blast
  then obtain s h where "api env (r + k) tenant page = Response s h (Json (Some pd))"
    by (auto dest: try_request_return)
  with process_page_next[OF pp] show ?thesis by blast
qed

lemma page_loop_returns:
  assumes "\<forall>k pg s h pd. api env k tenant pg = Response s h (Json (Some pd)) \<longrightarrow>
             p_total_pages pd \<le> N"
    and "N < page + int fuel" and "0 < fuel"
  shows "fst (page_loop fuel env tenant job_id job_db_id page (w, cnt)) \<noteq> OutOfFuel"
  using assms(2,3)
proof (induction fuel arbitrary: page w cnt)
  case 0
  then show ?case by simp
next
  case (Suc fuel)
  obtain st w1 cnt1 where s: "page_step env tenant job_id job_db_id page (w, cnt) = (st, w1, cnt1)"
    by (cases "page_step env tenant job_id job_db_id page (w, cnt)")
  show ?case
  proof (cases st)
    case Break
    with s show ?thesis by simp
  next
    case (Raise e)
    with s show ?thesis by simp
  next
    case (Next p')
    with s have "page_step env tenant job_id job_db_id page (w, cnt) = (Next p', w1, cnt1)"
      by simp
    from page_step_next[OF this] obtain k s' h pd where
      p': "p' = page + 1" and a: "api env k tenant page = Response s' h (Json (Some pd))"
      and lt: "page < p_total_pages pd"
      by blast
    from assms(1) a have "p_total_pages pd \<le> N" by blast
    with lt have "page < N" by simp
    with Suc.prems have "N < p' + int fuel" "0 < fuel" by (auto simp: p')
    from Suc.IH[OF this] s Next show ?thesis by simp
  qed
qed

lemma run_job_returns:
  assumes "\<forall>k pg s h pd. api env k tenant pg = Response s h (Json (Some pd)) \<longrightarrow>
             p_total_pages pd \<le> int fuel"
    and "0 < fuel"
  shows "fst (run_job fuel env tenant job_id w) \<noteq> None"
proof -
  have "int fuel < 1 + int fuel" by simp
  from page_loop_returns[OF assms(1) this assms(2)]
  have "fst (page_loop fuel env tenant job_id (length (ingestion_jobs (store w))) 1
          (start_job tenant job_id w, zero_counters)) \<noteq> OutOfFuel" .
  then show ?thesis
    by (auto simp: run_job_def Let_def split: prod.splits loop_exit.splits sum.splits)
qed

lemma run_ingestion_returns:
  assumes "\<forall>k pg s h pd. api env k tenant pg = Response s h (Json (Some pd)) \<longrightarrow>
             p_total_pages pd \<le> int fuel"
    and "0 < fuel"
  shows "fst (run_ingestion fuel env tenant w) \<noteq> None"
  using run_job_returns[OF assms]
  by (auto simp: run_ingestion_def Let_def split: prod.splits option.splits)

text \<open>
  C2, as the code has it by design. When every page the API answers names at most
  \<open>fuel\<close> pages, the call returns. A call that returns a result other than
  "already_running" has appended exactly one entry to the audit log; the entry carries
  the tenant, the job id and the counters of the run; after a normal end its status is
  PARTIAL_SUCCESS when \<open>errors > 0\<close> and SUCCESS otherwise, it has no error, and the
  counters are those returned; after an exception it carries that exception. A call
  that returns "already_running" has written no entry.
\<close>

theorem run_ingestion_audit_log:
  "((\<forall>k pg s h pd. api env k tenant pg = Response s h (Json (Some pd)) \<longrightarrow>
        p_total_pages pd \<le> int fuel) \<and> 0 < fuel \<longrightarrow>
      fst (run_ingestion fuel env tenant w) \<noteq> None)
   \<and> (\<forall>res w'. run_ingestion fuel env tenant w = (Some res, w') \<longrightarrow>
        ((\<exists>r. res = Inr r \<and> r_status r = ''already_running'') \<longrightarrow>
            ingestion_logs (store w') = ingestion_logs (store w))
        \<and> (\<not> (\<exists>r. res = Inr r \<and> r_status r = ''already_running'') \<longrightarrow>
            (\<exists>entry. ingestion_logs (store w') = ingestion_logs (store w) @ [entry]
               \<and> l_tenant_id entry = tenant \<and> l_job_id entry = uuid4 env
               \<and> l_new_ingested entry = new_ingested (counters_of_run fuel env tenant w)
               \<and> l_updated entry = updated (counters_of_run fuel env tenant w)
               \<and> l_errors entry = errors (counters_of_run fuel env tenant w)
               \<and> (case res of
                     Inr r \<Rightarrow>
                       l_status entry = (if 0 < r_errors r then ''PARTIAL_SUCCESS'' else ''SUCCESS'')
                       \<and> l_error entry = None
                       \<and> r_new_ingested r = l_new_ingested entry
                       \<and> r_updated r = l_updated entry
                       \<and> r_errors r = l_errors entry
                   | Inl e \<Rightarrow> l_error entry = Some e))))"
proof (intro conjI impI allI)
  assume "(\<forall>k pg s h pd. api env k tenant pg = Response s h (Json (Some pd)) \<longrightarrow>
        p_total_pages pd \<le> int fuel) \<and> 0 < fuel"
  then show "fst (run_ingestion fuel env tenant w) \<noteq> None"
    using run_ingestion_returns[of env tenant fuel w] by blast
next
  fix res w'
  assume r: "run_ingestion fuel env tenant w = (Some res, w')"
    and "\<exists>r. res = Inr r \<and> r_status r = ''already_running''"
  with run_ingestion_log_effect[OF r]
  show "ingestion_logs (store w') = ingestion_logs (store w)" by blast
next
  fix res w'
  assume r: "run_ingestion fuel env tenant w = (Some res, w')"
    and "\<not> (\<exists>r. res = Inr r \<and> r_status r = ''already_running'')"
  with run_ingestion_log_effect[OF r]
  show "\<exists>entry. ingestion_logs (store w') = ingestion_logs (store w) @ [entry]
               \<and> l_tenant_id entry = tenant \<and> l_job_id entry = uuid4 env
               \<and> l_new_ingested entry = new_ingested (counters_of_run fuel env tenant w)
               \<and> l_updated entry = updated (counters_of_run fuel env tenant w)
               \<and> l_errors entry = errors (counters_of_run fuel env tenant w)
               \<and> (case res of
                     Inr r \<Rightarrow>
                       l_status entry = (if 0 < r_errors r then ''PARTIAL_SUCCESS'' else ''SUCCESS'')
                       \<and> l_error entry = None
                       \<and> r_new_ingested r = l_new_ingested entry
                       \<and> r_updated r = l_updated entry
                       \<and> r_errors r = l_errors entry
                   | Inl e \<Rightarrow> l_error entry = Some e)"
    by blast
qed

text \<open>
  Instances: with the lock free and an API of one empty page the run writes one entry,
  SUCCESS; with an API that cannot be reached it writes one entry that carries the
  connection error.
\<close>

theorem run_ingestion_audit_log_witness:
  "fst (run_ingestion 5 (one_page_env []) ''T1'' (idle_world empty_db)) \<noteq> None
   \<and> map l_status (ingestion_logs (store (snd (run_ingestion 5 (one_page_env []) ''T1''
      (idle_world empty_db))))) = [''SUCCESS'']
   \<and> map l_error (ingestion_logs (store (snd (run_ingestion 5 down_env ''T1''
      (idle_world empty_db))))) = [Some ConnectError]"
proof -
  let ?w = "idle_world empty_db"
  have lg: "ingestion_logs (store ?w) = []" by (simp add: idle_world_def empty_db_def)
  let ?r = "\<lparr> r_status = ''completed'', r_job_id = JobId ''job-B'',
                  r_new_ingested = 0, r_updated = 0, r_errors = 0 \<rparr>"
  have bound: "(\<forall>k pg s h pd. api (one_page_env []) k ''T1'' pg = Response s h (Json (Some pd)) \<longrightarrow>
        p_total_pages pd \<le> int 5) \<and> (0::nat) < 5"
    by (simp add: one_page_env_def)
  have 1: "run_ingestion 5 (one_page_env []) ''T1'' ?w =
      (Some (Inr ?r), snd (run_ingestion 5 (one_page_env []) ''T1'' ?w))"
    using run_idle_one_empty_page by (metis prod.collapse)
  have 2: "run_ingestion 5 down_env ''T1'' ?w =
      (Some (Inl ConnectError), snd (run_ingestion 5 down_env ''T1'' ?w))"
    using run_idle_down(1) by (metis prod.collapse)
  from run_ingestion_audit_log[of "one_page_env []" "''T1''" 5 ?w] bound
  have t: "fst (run_ingestion 5 (one_page_env []) ''T1'' ?w) \<noteq> None" by blast
  from run_ingestion_audit_log[THEN conjunct2, rule_format, OF 1] have a: "map l_status (ingestion_logs (store (snd
      (run_ingestion 5 (one_page_env []) ''T1'' ?w)))) = [''SUCCESS'']"
    by (auto simp: lg)
  from run_ingestion_audit_log[THEN conjunct2, rule_format, OF 2] have b: "map l_error (ingestion_logs (store (snd
      (run_ingestion 5 down_env ''T1'' ?w)))) = [Some ConnectError]"
    by (auto simp: lg)
  from t a b show ?thesis by blast
qed

text \<open>
  The claim "every execution writes exactly one entry whose status is SUCCESS,
  PARTIAL_SUCCESS or FAILED" fails twice. A call that finds the lock held and a running
  job returns "already_running" and writes no entry. And a run that ends by an
  exception writes the status "failed", in lower case.
\<close>

theorem run_ingestion_log_none_or_failed:
  "fst (run_ingestion 5 (one_page_env []) ''T1''
     (idle_world (empty_db\<lparr>ingestion_jobs := [job_A], distributed_locks := [lock_of_job_A]\<rparr>)))
     = Some (Inr \<lparr> r_status = ''already_running'', r_job_id = DbId 0,
                  r_new_ingested = 0, r_updated = 0, r_errors = 0 \<rparr>)
   \<and> ingestion_logs (store (snd (run_ingestion 5 (one_page_env []) ''T1''
     (idle_world (empty_db\<lparr>ingestion_jobs := [job_A], distributed_locks := [lock_of_job_A]\<rparr>)))))
     = []
   \<and> fst (run_ingestion 5 down_env ''T1'' (idle_world empty_db)) = Some (Inl ConnectError)
   \<and> map l_status (ingestion_logs (store (snd (run_ingestion 5 down_env ''T1''
        (idle_world empty_db))))) = [''failed'']"
proof -
  let ?d = "empty_db\<lparr>ingestion_jobs := [job_A], distributed_locks := [lock_of_job_A]\<rparr>"
  have u: "uuid4 (one_page_env []) = ''job-B''" by (simp add: one_page_env_def)
  have al: "acquire_lock (clock (idle_world ?d)) (lock_name ''T1'') ''job-B'' (store (idle_world ?d))
      = (False, ?d)"
    using acquire_lock_held[of "empty_db\<lparr>ingestion_jobs := [job_A]\<rparr>"]
    by (simp add: idle_world_def)
  have fi: "first_index (\<lambda>j. j_tenant_id j = ''T1'' \<and> j_status j = ''running'') (ingestion_jobs ?d)
      = Some 0"
    by (simp add: job_A_def)
  have lg: "ingestion_logs ?d = []" by (simp add: empty_db_def)
  have g: "run_ingestion 5 (one_page_env []) ''T1'' (idle_world ?d) =
      (Some (Inr \<lparr> r_status = ''already_running'', r_job_id = DbId 0,
                  r_new_ingested = 0, r_updated = 0, r_errors = 0 \<rparr>),
       (idle_world ?d)\<lparr>store := ?d\<rparr>)"
    unfolding run_ingestion_def Let_def u al prod.case fi by simp
  show ?thesis
    unfolding g using run_idle_down lg by simp
qed

text \<open>
  C4. The document of the coordinator's upsert has no \<open>deleted_at\<close>; \<open>mark_deleted\<close>
  leaves every ticket that has a \<open>deleted_at\<close> as it is; and over any sequence of runs
  of the coordinator, \<open>sync_ticket\<close> and \<open>mark_deleted\<close> calls, with time passing in
  between, every ticket stays in the collection and keeps the \<open>deleted_at\<close> it had.
\<close>

theorem deleted_at_never_cleared:
  "(prepare_ticket parse tenant ticket_data = Inr (set_doc, c) \<longrightarrow>
      ''deleted_at'' \<notin> fst ` set set_doc)
   \<and> (\<forall>i v. i < length (tickets d) \<and> (tickets d ! i) ''deleted_at'' = Some v \<longrightarrow>
         tickets (snd (mark_deleted now tenant external_ids d)) ! i = tickets d ! i)
   \<and> deleted_kept (tickets (store w)) (tickets (store (fold apply_op ops w)))"
  using prepare_ticket_no_deleted_at[of parse tenant ticket_data set_doc c]
    mark_deleted_untouched[of _ d _ now tenant external_ids] fold_apply_op_kept[of w ops]
  by blast

text \<open>
  An instance: ticket X2 of tenant T1 carries the stamp of clock reading 0. A run that
  observes X2 again with a new subject, a \<open>mark_deleted\<close> of X2 and a \<open>sync_ticket\<close> of X2
  leave the stamp in place.
\<close>

theorem deleted_at_never_cleared_witness:
  "''deleted_at'' \<notin> fst ` set (ticket_doc ''T1'' [''id'' \<mapsto> VStr ''X2''] VNull VNull (classify [] []))
   \<and> (tickets (store (fold apply_op
        [RunIngestion 5 (one_page_env [[''id'' \<mapsto> VStr ''X2'', ''subject'' \<mapsto> VStr ''again'']]) ''T1'',
         Elapse 30,
         MarkDeleted ''T1'' [VStr ''X2''],
         SyncTicket (\<lambda>s. None) [''id'' \<mapsto> VStr ''X2''] ''T1'']
        (idle_world (empty_db\<lparr>tickets :=
           [[''tenant_id'' \<mapsto> VStr ''T1'', ''external_id'' \<mapsto> VStr ''X2'',
             ''deleted_at'' \<mapsto> VTime (utc 0)]]\<rparr>)))) ! 0) ''deleted_at''
      = Some (VTime (utc 0))"
proof -
  let ?w = "idle_world (empty_db\<lparr>tickets :=
           [[''tenant_id'' \<mapsto> VStr ''T1'', ''external_id'' \<mapsto> VStr ''X2'',
             ''deleted_at'' \<mapsto> VTime (utc 0)]]\<rparr>)"
  let ?ops = "[RunIngestion 5 (one_page_env [[''id'' \<mapsto> VStr ''X2'', ''subject'' \<mapsto> VStr ''again'']]) ''T1'',
         Elapse 30,
         MarkDeleted ''T1'' [VStr ''X2''],
         SyncTicket (\<lambda>s. None) [''id'' \<mapsto> VStr ''X2''] ''T1'']"
  have p: "prepare_ticket (\<lambda>s. None) ''T1'' [''id'' \<mapsto> VStr ''X2''] =
      Inr (ticket_doc ''T1'' [''id'' \<mapsto> VStr ''X2''] VNull VNull (classify [] []), classify [] [])"
    by (simp add: prepare_ticket_def classify_ticket_def get_or_def parse_if_str_def dict_get_def)
  have t: "0 < length (tickets (store ?w))
      \<and> (tickets (store ?w) ! 0) ''deleted_at'' = Some (VTime (utc 0))"
    by (simp add: idle_world_def empty_db_def)
  from deleted_at_never_cleared[of "\<lambda>s. None" "''T1''" "[''id'' \<mapsto> VStr ''X2'']"
      "ticket_doc ''T1'' [''id'' \<mapsto> VStr ''X2''] VNull VNull (classify [] [])" "classify [] []"
      empty_db 0 "[]" ?w ?ops] p
  have a: "''deleted_at'' \<notin> fst ` set (ticket_doc ''T1'' [''id'' \<mapsto> VStr ''X2''] VNull VNull (classify [] []))"
    and k: "deleted_kept (tickets (store ?w)) (tickets (store (fold apply_op ?ops ?w)))"
    by blast+
  from k t have "(tickets (store (fold apply_op ?ops ?w)) ! 0) ''deleted_at'' = Some (VTime (utc 0))"
    unfolding deleted_kept_def by blast
  with a show ?thesis by (rule conjI)
qed

end
